theory Spec2Isabelle
  imports Main "HOL-Library.Word"
begin

section \<open>JavaScript strings\<close>

text \<open>
  A JavaScript string is a sequence of UTF-16 code units. String literals of the source are
  written \<open>js ''...''\<close>.
\<close>

type_synonym jschar = "16 word"
type_synonym jsstring = "jschar list"

definition js :: "string \<Rightarrow> jsstring" where
  "js s = map (\<lambda>c. of_char c) s"

text \<open>
  The code units that \<open>String.prototype.trimStart\<close>, \<open>trimEnd\<close> and the regular
  expression class \<open>\s\<close> treat as white space: ECMAScript WhiteSpace and LineTerminator.
\<close>

definition isWhiteSpace :: "jschar \<Rightarrow> bool" where
  "isWhiteSpace c =
     (c = 0x9 \<or> c = 0xA \<or> c = 0xB \<or> c = 0xC \<or> c = 0xD \<or> c = 0x20 \<or> c = 0xA0
      \<or> c = 0x1680 \<or> (0x2000 \<le> c \<and> c \<le> 0x200A) \<or> c = 0x2028 \<or> c = 0x2029
      \<or> c = 0x202F \<or> c = 0x205F \<or> c = 0x3000 \<or> c = 0xFEFF)"

definition trimStart :: "jsstring \<Rightarrow> jsstring" where
  "trimStart s = dropWhile isWhiteSpace s"

definition trimEnd :: "jsstring \<Rightarrow> jsstring" where
  "trimEnd s = rev (dropWhile isWhiteSpace (rev s))"

text \<open>
  \<open>s.match(/\s+$/)\<close>: the match, when there is one, is the longest suffix of white space;
  there is none (\<open>null\<close>) when the string does not end in white space.
\<close>

definition match_trailing_whitespace :: "jsstring \<Rightarrow> jsstring option" where
  "match_trailing_whitespace s =
     (let m = rev (takeWhile isWhiteSpace (rev s)) in if m = [] then None else Some m)"

definition startsWith :: "jsstring \<Rightarrow> jsstring \<Rightarrow> bool" where
  "startsWith s p = (take (length p) s = p)"

definition endsWith :: "jsstring \<Rightarrow> jsstring \<Rightarrow> bool" where
  "endsWith s p = (length p \<le> length s \<and> drop (length s - length p) s = p)"

section \<open>Errors and deltas\<close>

datatype js_error = AbortError string | Error string

text \<open>
  \<open>Delta<T>\<close>: the provider adapters build \<open>{ type: "delta", deltaValue }\<close> and
  \<open>{ type: "error", error }\<close>.
\<close>

datatype 'raw Delta = Delta_delta (deltaValue: 'raw) | Delta_error js_error

section \<open>executeStreamCall\<close>

datatype stream_end = Completed | Failed js_error

text \<open>
  Modelled from the spec: \<open>executeStreamCall\<close> (model-function/executeStreamCall.ts is
  not among the sources). The public sequence it returns iterates the raw delta sequence; each
  delta value goes through the caller's \<open>processDelta\<close>, a result of "no value" is left out
  of the public sequence without ending it; an error delta ends the public sequence with that
  error; on normal completion the caller's \<open>onDone\<close> hook runs. The closure state of the
  caller's hooks is passed explicitly. The result is what a consumer that drains the public
  sequence observes: the items, how the sequence ended, and the closure state afterwards.
\<close>

fun executeStreamCall_drain ::
  "('s \<Rightarrow> 'raw \<Rightarrow> 'out option \<times> 's) \<Rightarrow> ('s \<Rightarrow> 's) \<Rightarrow> 's \<Rightarrow> 'raw Delta list
     \<Rightarrow> 'out list \<times> stream_end \<times> 's" where
  "executeStreamCall_drain processDelta onDone s [] = ([], Completed, onDone s)"
| "executeStreamCall_drain processDelta onDone s (Delta_error e # ds) = ([], Failed e, s)"
| "executeStreamCall_drain processDelta onDone s (Delta_delta v # ds) =
     (case processDelta s v of (out, s') \<Rightarrow>
        (case executeStreamCall_drain processDelta onDone s' ds of (outs, fin, s'') \<Rightarrow>
           ((case out of None \<Rightarrow> outs | Some x \<Rightarrow> x # outs), fin, s'')))"

text \<open>
  The options argument: \<open>FunctionOptions & { fullResponse?: boolean }\<close>. The record is
  extensible, the other fields of \<open>FunctionOptions\<close> play no part here.
\<close>

record FunctionOptions =
  fullResponse :: "bool option"

text \<open>\<open>options?.fullResponse\<close> used as a condition.\<close>

definition options_fullResponse :: "FunctionOptions option \<Rightarrow> bool" where
  "options_fullResponse options =
     (case options of
        None \<Rightarrow> False
      | Some opts \<Rightarrow> (case fullResponse opts of None \<Rightarrow> False | Some b \<Rightarrow> b))"

text \<open>
  Modelled from the spec: the call of \<open>executeStreamCall\<close> itself (not among the sources).
  It starts the provider stream outside of any retry loop and returns the public sequence
  together with the metadata of the call; a failure to start the stream is thrown. The public
  sequence is lazy: it is the raw delta sequence together with the caller's hooks, and
  \<open>drain\<close> iterates it to its end, from the state that the hooks close over. The \<open>onDone\<close>
  hook is optional. The metadata (call id, timestamps) is not computed from the arguments and
  is a parameter; the function type and the input only go into the metadata and the events.
\<close>

record ('s, 'raw, 'out) public_stream =
  raw_deltas :: "'raw Delta list"
  stream_processDelta :: "'s \<Rightarrow> 'raw \<Rightarrow> 'out option \<times> 's"
  stream_onDone :: "'s \<Rightarrow> 's"

record ('stream, 'meta) executeStreamCall_result =
  "value" :: 'stream
  metadata :: 'meta

definition executeStreamCall ::
  "'meta \<Rightarrow> (FunctionOptions option \<Rightarrow> js_error + 'raw Delta list)
     \<Rightarrow> ('s \<Rightarrow> 'raw \<Rightarrow> 'out option \<times> 's) \<Rightarrow> ('s \<Rightarrow> 's) option \<Rightarrow> FunctionOptions option
     \<Rightarrow> js_error + (('s, 'raw, 'out) public_stream, 'meta) executeStreamCall_result" where
  "executeStreamCall startMetadata startStream processDelta onDone options =
     (case startStream options of
        Inl e \<Rightarrow> Inl e
      | Inr deltaIterable \<Rightarrow>
          Inr \<lparr>value =
                 \<lparr>raw_deltas = deltaIterable,
                  stream_processDelta = processDelta,
                  stream_onDone = (case onDone of None \<Rightarrow> (\<lambda>s. s) | Some hook \<Rightarrow> hook)\<rparr>,
               metadata = startMetadata\<rparr>)"

definition drain :: "('s, 'raw, 'out) public_stream \<Rightarrow> 's \<Rightarrow> 'out list \<times> stream_end \<times> 's" where
  "drain stream s =
     executeStreamCall_drain (stream_processDelta stream) (stream_onDone stream) s
       (raw_deltas stream)"

section \<open>streamText\<close>

text \<open>
  The variables that the hooks of \<open>streamText\<close> close over. \<open>textPromise\<close> is the value the
  promise has been resolved with, \<open>None\<close> while it is pending.
\<close>

record streamText_state =
  accumulatedText :: jsstring
  isFirstDelta :: bool
  trailingWhitespace :: jsstring
  textPromise :: "jsstring option"

definition streamText_init :: streamText_state where
  "streamText_init =
     \<lparr>accumulatedText = [], isFirstDelta = True, trailingWhitespace = [], textPromise = None\<rparr>"

definition processDelta ::
  "bool \<Rightarrow> ('raw \<Rightarrow> jsstring option) \<Rightarrow> streamText_state \<Rightarrow> 'raw
     \<Rightarrow> jsstring option \<times> streamText_state" where
  "processDelta shouldTrimWhitespace extractTextDelta s delta =
     (case extractTextDelta delta of
        None \<Rightarrow> (None, s)
      | Some textDelta \<Rightarrow>
          if length textDelta = 0 then (None, s)
          else if shouldTrimWhitespace then
            (let textDelta1 =
                   (if isFirstDelta s then trimStart textDelta
                    else trailingWhitespace s @ textDelta);
                 trailingWhitespace' =
                   (case match_trailing_whitespace textDelta1 of
                      Some m \<Rightarrow> m | None \<Rightarrow> []);
                 textDelta2 = trimEnd textDelta1
             in (Some textDelta2,
                 s\<lparr>accumulatedText := accumulatedText s @ textDelta2,
                   isFirstDelta := False,
                   trailingWhitespace := trailingWhitespace'\<rparr>))
          else
            (Some textDelta,
             s\<lparr>accumulatedText := accumulatedText s @ textDelta, isFirstDelta := False\<rparr>))"

text \<open>\<open>onDone\<close>: \<open>resolveText(accumulatedText)\<close>; resolving a settled promise again has no effect.\<close>

definition onDone :: "streamText_state \<Rightarrow> streamText_state" where
  "onDone s =
     (case textPromise s of
        None \<Rightarrow> s\<lparr>textPromise := Some (accumulatedText s)\<rparr>
      | Some _ \<Rightarrow> s)"

text \<open>
  What \<open>streamText\<close> uses of a \<open>TextStreamingModel\<close>. The asynchronous sequence that
  \<open>doStreamText\<close> resolves to is the list of the deltas the provider delivers before it
  closes the sequence; a rejected call is \<open>Inl\<close>.
\<close>

record ('prompt, 'raw) TextStreamingModel =
  settings_trimWhitespace :: "bool option"
  doStreamText :: "'prompt \<Rightarrow> FunctionOptions option \<Rightarrow> js_error + 'raw Delta list"
  extractTextDelta :: "'raw \<Rightarrow> jsstring option"

text \<open>
  The two shapes \<open>streamText\<close> returns. The field \<open>text\<close> is the promise: it is read in
  the closure state, where \<open>None\<close> is a pending promise.
\<close>

datatype ('raw, 'meta) streamText_result =
  TextStream "(streamText_state, 'raw, jsstring) public_stream"
| TextFullResponse
    (result_textStream: "(streamText_state, 'raw, jsstring) public_stream")
    (result_text: "streamText_state \<Rightarrow> jsstring option")
    (result_metadata: 'meta)

definition shouldTrimWhitespace :: "('prompt, 'raw) TextStreamingModel \<Rightarrow> bool" where
  "shouldTrimWhitespace model =
     (case settings_trimWhitespace model of None \<Rightarrow> True | Some b \<Rightarrow> b)"

definition streamText ::
  "'meta \<Rightarrow> ('prompt, 'raw) TextStreamingModel \<Rightarrow> 'prompt \<Rightarrow> FunctionOptions option
     \<Rightarrow> js_error + ('raw, 'meta) streamText_result" where
  "streamText startMetadata model prompt options =
     (case executeStreamCall startMetadata
             (\<lambda>options. doStreamText model prompt options)
             (processDelta (shouldTrimWhitespace model) (extractTextDelta model))
             (Some onDone) options of
        Inl e \<Rightarrow> Inl e
      | Inr fullResponse' \<Rightarrow>
          Inr (if options_fullResponse options
               then TextFullResponse (value fullResponse') textPromise (metadata fullResponse')
               else TextStream (value fullResponse')))"

text \<open>
  The sequence that \<open>streamText\<close> returns when the model delivers the given deltas, and its
  iteration to the end, from the initial values of the variables of \<open>streamText\<close>.
\<close>

definition textStream_of ::
  "('prompt, 'raw) TextStreamingModel \<Rightarrow> 'raw Delta list
     \<Rightarrow> (streamText_state, 'raw, jsstring) public_stream" where
  "textStream_of model deltas =
     \<lparr>raw_deltas = deltas,
      stream_processDelta = processDelta (shouldTrimWhitespace model) (extractTextDelta model),
      stream_onDone = onDone\<rparr>"

definition drain_textStream ::
  "('prompt, 'raw) TextStreamingModel \<Rightarrow> 'raw Delta list
     \<Rightarrow> jsstring list \<times> stream_end \<times> streamText_state" where
  "drain_textStream model deltas = drain (textStream_of model deltas) streamText_init"

subsection \<open>Specification of the trimmed text\<close>

text \<open>
  The fragments that count: the extracted text of each delta value, where there is one and it
  is not empty.
\<close>

definition nonempty_fragments :: "('raw \<Rightarrow> jsstring option) \<Rightarrow> 'raw list \<Rightarrow> jsstring list" where
  "nonempty_fragments extract vs = filter (\<lambda>t. t \<noteq> []) (List.map_filter extract vs)"

text \<open>
  The specification's words: leading white space goes from the first fragment only, white
  space inside the concatenated text stays, trailing white space of the whole text goes.
\<close>

definition spec_untrimmed_text :: "jsstring list \<Rightarrow> jsstring" where
  "spec_untrimmed_text fs = (case fs of [] \<Rightarrow> [] | f # rest \<Rightarrow> trimStart f @ concat rest)"

definition spec_trimmed_text :: "jsstring list \<Rightarrow> jsstring" where
  "spec_trimmed_text fs = trimEnd (spec_untrimmed_text fs)"

text \<open>A string that is empty or ends in a code unit that is not white space.\<close>

definition ends_in_text :: "jsstring \<Rightarrow> bool" where
  "ends_in_text x = (x = [] \<or> \<not> isWhiteSpace (last x))"

text \<open>The text that a state will still let through, given the fragments to come.\<close>

definition pending_text :: "streamText_state \<Rightarrow> jsstring list \<Rightarrow> jsstring" where
  "pending_text s fs =
     (if isFirstDelta s then spec_untrimmed_text fs else trailingWhitespace s @ concat fs)"

text \<open>A model whose raw deltas are the text fragments themselves.\<close>

definition example_model :: "(unit, jsstring) TextStreamingModel" where
  "example_model =
     \<lparr>settings_trimWhitespace = None,
      doStreamText = (\<lambda>p opts. Inr [Delta_delta (js '' Hello''), Delta_delta (js '' world '')]),
      extractTextDelta = Some\<rparr>"

section \<open>AsyncQueue\<close>

text \<open>
  Modelled from the spec: \<open>AsyncQueue\<close> (util/AsyncQueue.ts is not among the sources). An
  ordered sequence of items and a closed flag. \<open>push\<close> appends to the tail; after
  \<open>close\<close> a push is not accepted: it "fails silently (or raises)", and which of the two
  is a parameter. \<open>close\<close> marks that no more items will arrive and is idempotent. The
  terminal error of the specification's data model has no operation in the contract and the
  sources carry errors as items of the queue, so the model has no such field.
\<close>

record 'a AsyncQueue =
  "values" :: "'a list"
  closed :: bool

datatype push_after_close = Raises | Ignores

definition AsyncQueue_new :: "'a AsyncQueue" where
  "AsyncQueue_new = \<lparr>values = [], closed = False\<rparr>"

definition push :: "push_after_close \<Rightarrow> 'a AsyncQueue \<Rightarrow> 'a \<Rightarrow> js_error + 'a AsyncQueue" where
  "push policy q item =
     (if closed q
      then (case policy of
              Raises \<Rightarrow> Inl (Error ''Cannot push value to closed queue.'')
            | Ignores \<Rightarrow> Inr q)
      else Inr (q\<lparr>values := values q @ [item]\<rparr>))"

definition close :: "'a AsyncQueue \<Rightarrow> 'a AsyncQueue" where
  "close q = q\<lparr>closed := True\<rparr>"

text \<open>
  Modelled from the spec: the iteration protocol of the queue. An iterator starts at the
  first buffered item; asked for the next item it yields the item at its position, or
  completes when the queue is closed and drained, or else suspends until a push or a close.
\<close>

datatype 'a next_result = Item 'a | Done | Suspended

definition iterator_next :: "'a AsyncQueue \<Rightarrow> nat \<Rightarrow> 'a next_result \<times> nat" where
  "iterator_next q position =
     (if position < length (values q) then (Item (values q ! position), position + 1)
      else if closed q then (Done, position)
      else (Suspended, position))"

text \<open>
  A consumer's loop \<open>for await (const item of queue)\<close> over a queue that no producer
  touches any more: the items it observes, and whether the loop ends or stays suspended.
\<close>

datatype consumer_end = Terminated | Waiting

function consume :: "'a AsyncQueue \<Rightarrow> nat \<Rightarrow> 'a list \<times> consumer_end" where
  "consume q position =
     (case iterator_next q position of
        (Item x, position') \<Rightarrow>
          (case consume q position' of (xs, fin) \<Rightarrow> (x # xs, fin))
      | (Done, _) \<Rightarrow> ([], Terminated)
      | (Suspended, _) \<Rightarrow> ([], Waiting))"
  by pat_completeness auto
termination
  by (relation "measure (\<lambda>(q, position). length (values q) - position)")
     (auto simp: iterator_next_def split: if_splits)

text \<open>A producer that pushes the items of a list, one after the other.\<close>

fun push_all :: "push_after_close \<Rightarrow> 'a AsyncQueue \<Rightarrow> 'a list \<Rightarrow> js_error + 'a AsyncQueue" where
  "push_all policy q [] = Inr q"
| "push_all policy q (x # xs) =
     (case push policy q x of Inl e \<Rightarrow> Inl e | Inr q' \<Rightarrow> push_all policy q' xs)"

section \<open>streamSpeech\<close>

text \<open>
  An \<open>AsyncIterable<string>\<close> is a queue or some other asynchronous iterable, of a type that
  is left open. The \<open>text\<close> argument of \<open>streamSpeech\<close> is a string or an asynchronous
  iterable.
\<close>

datatype ('a, 'it) AsyncIterable = Queue "'a AsyncQueue" | Other_iterable 'it

datatype 'it speech_text = Text_string jsstring | Text_stream "(jsstring, 'it) AsyncIterable"

record ('it, 'chunk) StreamingSpeechGenerationModel =
  doGenerateSpeechStreamDuplex ::
    "(jsstring, 'it) AsyncIterable \<Rightarrow> FunctionOptions option \<Rightarrow> js_error + 'chunk Delta list"

datatype ('chunk, 'meta) streamSpeech_result =
  SpeechStream "(unit, 'chunk, 'chunk) public_stream"
| SpeechFullResponse
    (result_speechStream: "(unit, 'chunk, 'chunk) public_stream")
    (result_speech_metadata: 'meta)

text \<open>The first statement of \<open>streamSpeech\<close>: the value of \<open>textStream\<close>.\<close>

definition streamSpeech_textStream ::
  "push_after_close \<Rightarrow> 'it speech_text \<Rightarrow> js_error + (jsstring, 'it) AsyncIterable" where
  "streamSpeech_textStream policy text =
     (case text of
        Text_string s \<Rightarrow>
          (case push policy AsyncQueue_new s of
             Inl e \<Rightarrow> Inl e
           | Inr queue \<Rightarrow> Inr (Queue (close queue)))
      | Text_stream it \<Rightarrow> Inr it)"

definition streamSpeech ::
  "push_after_close \<Rightarrow> 'meta \<Rightarrow> ('it, 'chunk) StreamingSpeechGenerationModel \<Rightarrow> 'it speech_text
     \<Rightarrow> FunctionOptions option \<Rightarrow> js_error + ('chunk, 'meta) streamSpeech_result" where
  "streamSpeech policy startMetadata model text options =
     (case streamSpeech_textStream policy text of
        Inl e \<Rightarrow> Inl e
      | Inr textStream \<Rightarrow>
          (case executeStreamCall startMetadata
                  (\<lambda>options. doGenerateSpeechStreamDuplex model textStream options)
                  (\<lambda>s delta. (Some delta, s)) None options of
             Inl e \<Rightarrow> Inl e
           | Inr fullResponse' \<Rightarrow>
               Inr (if options_fullResponse options
                    then SpeechFullResponse (value fullResponse') (metadata fullResponse')
                    else SpeechStream (value fullResponse'))))"

text \<open>
  The sequence that \<open>streamSpeech\<close> returns when the model delivers the given deltas:
  \<open>processDelta\<close> is \<open>(delta) => delta.deltaValue\<close>, and there is no \<open>onDone\<close> hook.
\<close>

definition speechStream_of :: "'chunk Delta list \<Rightarrow> (unit, 'chunk, 'chunk) public_stream" where
  "speechStream_of deltas =
     \<lparr>raw_deltas = deltas,
      stream_processDelta = (\<lambda>s delta. (Some delta, s)),
      stream_onDone = (\<lambda>s. s)\<rparr>"

declare consume.simps [simp del]

text \<open>A speech model that answers every text stream with the same two chunks.\<close>

definition example_speech_model :: "(unit, nat) StreamingSpeechGenerationModel" where
  "example_speech_model =
     \<lparr>doGenerateSpeechStreamDuplex = (\<lambda>textStream opts. Inr [Delta_delta 1, Delta_delta 2])\<rparr>"

section \<open>BaseUrlApiConfiguration\<close>

record UrlParts =
  protocol :: jsstring
  host :: jsstring
  port :: jsstring
  path :: jsstring

record BaseUrlApiConfiguration =
  baseUrl :: UrlParts
  headers :: "(jsstring \<times> jsstring) list"

text \<open>\<open>s.slice(0, -1)\<close>: the string without its last code unit.\<close>

definition slice_0_minus_1 :: "jsstring \<Rightarrow> jsstring" where
  "slice_0_minus_1 s = take (length s - 1) s"

definition assembleUrl :: "BaseUrlApiConfiguration \<Rightarrow> jsstring \<Rightarrow> jsstring" where
  "assembleUrl this path0 =
     (let basePath0 = path (baseUrl this);
          basePath = (if endsWith basePath0 (js ''/'') then slice_0_minus_1 basePath0
                      else basePath0);
          path1 = (if \<not> startsWith path0 (js ''/'') then js ''/'' @ path0 else path0)
      in protocol (baseUrl this) @ js ''://'' @ host (baseUrl this) @ js '':''
           @ port (baseUrl this) @ basePath @ path1)"

subsection \<open>Specification of the join\<close>

text \<open>
  The claim's words: one slash, and no more, stands between the base path and the path. The
  base path is taken without the slashes it ends in and the path without the slashes it
  starts with.
\<close>

definition strip_trailing_slashes :: "jsstring \<Rightarrow> jsstring" where
  "strip_trailing_slashes s = rev (dropWhile (\<lambda>c. c = 0x2F) (rev s))"

definition strip_leading_slashes :: "jsstring \<Rightarrow> jsstring" where
  "strip_leading_slashes s = dropWhile (\<lambda>c. c = 0x2F) s"

definition spec_one_slash_url :: "BaseUrlApiConfiguration \<Rightarrow> jsstring \<Rightarrow> jsstring" where
  "spec_one_slash_url this path0 =
     protocol (baseUrl this) @ js ''://'' @ host (baseUrl this) @ js '':''
       @ port (baseUrl this) @ strip_trailing_slashes (path (baseUrl this)) @ js ''/''
       @ strip_leading_slashes path0"

definition example_api :: BaseUrlApiConfiguration where
  "example_api =
     \<lparr>baseUrl = \<lparr>protocol = js ''http'', host = js ''127.0.0.1'', port = js ''8080'',
                  path = js ''/v1''\<rparr>,
      headers = []\<rparr>"

section \<open>LlamaCppCompletionModel: settings\<close>

text \<open>
  Objects live in a store: a reference is an index into the list of the allocated objects, and
  a settings object maps the names of its own properties to their values. A property that is
  present with the value \<open>undefined\<close> is a key of the map like any other; the type of the
  values is left open.
\<close>

type_synonym ref = nat
type_synonym 'v object = "string \<rightharpoonup> 'v"
type_synonym 'v store = "'v object list"

text \<open>An object literal \<open>{}\<close>: a new, empty object.\<close>

definition new_object :: "'v store \<Rightarrow> 'v store \<times> ref" where
  "new_object h = (h @ [Map.empty], length h)"

text \<open>
  \<open>Object.assign(target, ...sources)\<close>: the own properties of each source are written to
  the target, source after source; the target is changed in the store.
\<close>

fun Object_assign :: "'v store \<Rightarrow> ref \<Rightarrow> ref list \<Rightarrow> 'v store" where
  "Object_assign h target [] = h"
| "Object_assign h target (source # sources) =
     Object_assign (h[target := (h ! target) ++ (h ! source)]) target sources"

text \<open>
  Modelled from the spec: the base class \<open>AbstractModel\<close> is not among the sources; its
  constructor is taken to keep the settings object it is given as \<open>this.settings\<close>, which
  is where the class reads its settings. A model object is the reference to its settings
  object, and the \<open>api\<close> setting that the constructor of \<open>LlamaCppCompletionModel\<close> reads
  from it for the tokenizer.
\<close>

record 'v LlamaCppCompletionModel =
  settings :: ref
  tokenizer_api :: "'v option"

definition LlamaCppCompletionModel_new :: "'v store \<Rightarrow> ref \<Rightarrow> 'v LlamaCppCompletionModel" where
  "LlamaCppCompletionModel_new h settings0 =
     \<lparr>settings = settings0, tokenizer_api = (h ! settings0) ''api''\<rparr>"

definition withSettings ::
  "'v store \<Rightarrow> 'v LlamaCppCompletionModel \<Rightarrow> ref \<Rightarrow> 'v store \<times> 'v LlamaCppCompletionModel" where
  "withSettings h this additionalSettings =
     (case new_object h of
        (h1, target) \<Rightarrow>
          (let h2 = Object_assign h1 target [settings this, additionalSettings]
           in (h2, LlamaCppCompletionModel_new h2 target)))"

text \<open>A store with the settings of a model and a partial settings object.\<close>

definition example_store :: "int store" where
  "example_store =
     [[''temperature'' \<mapsto> 8, ''topK'' \<mapsto> 40], [''topK'' \<mapsto> 10, ''seed'' \<mapsto> 7]]"

section \<open>generate and safeGenerate\<close>

text \<open>
  What a \<open>RetryFunction\<close> resolves to: \<open>{ status: "success", result, tries }\<close>,
  \<open>{ status: "failure", error }\<close> or \<open>{ status: "abort" }\<close>.
\<close>

datatype 'raw RetryOutcome =
  Outcome_success (result: 'raw) (tries: nat)
| Outcome_failure js_error
| Outcome_abort

text \<open>
  A retry function gets the call of the model as a thunk. Functions that the source awaits
  resolve (\<open>Inr\<close>) or reject (\<open>Inl\<close>).
\<close>

type_synonym 'raw RetryFunction = "(unit \<Rightarrow> js_error + 'raw) \<Rightarrow> 'raw RetryOutcome"

record ('prompt, 'sig, 'raw, 'gen) GenerateModel =
  vendor :: string
  model_name :: string
  generate_raw :: "'prompt \<Rightarrow> 'sig option \<Rightarrow> js_error + 'raw"
  model_extractOutput :: "'raw \<Rightarrow> js_error + 'gen"

text \<open>
  The run context; of its two observer callbacks only their presence matters, since what a
  callback does is not the concern of \<open>safeGenerate\<close>: a call of a callback is recorded
  in the trace.
\<close>

record 'sig RunContext =
  runId :: "string option"
  sessionId :: "string option"
  userId :: "string option"
  abortSignal :: "'sig option"
  context_onCallStart :: bool
  context_onCallEnd :: bool

text \<open>The first argument of \<open>safeGenerate\<close>, with its optional fields.\<close>

record ('input, 'prompt, 'sig, 'raw, 'gen, 'out) generate_input =
  arg_functionId :: "string option"
  arg_prompt :: "'input \<Rightarrow> js_error + 'prompt"
  arg_input :: 'input
  arg_model :: "('prompt, 'sig, 'raw, 'gen) GenerateModel"
  arg_processOutput :: "'gen \<Rightarrow> js_error + 'out"
  arg_extractOutput :: "('raw \<Rightarrow> js_error + 'gen) option"
  arg_retry :: "'raw RetryFunction option"
  arg_onCallStart :: bool
  arg_onCallEnd :: bool

text \<open>
  What does not come from the arguments: the identifier from \<open>createId()\<close>, the two
  readings of the clock as the values computed from them, and, since its source is not
  among the sources, the default retry function \<open>retryWithExponentialBackoff()\<close>.
\<close>

record 'raw generate_env =
  env_callId :: string
  env_startEpochSeconds :: int
  env_durationInMs :: int
  env_retryWithExponentialBackoff :: "'raw RetryFunction"

record start_metadata =
  callId :: string
  meta_functionId :: "string option"
  meta_runId :: "string option"
  meta_sessionId :: "string option"
  meta_userId :: "string option"
  meta_model_vendor :: string
  meta_model_name :: string
  startEpochSeconds :: int

record end_metadata = start_metadata +
  durationInMs :: int
  meta_tries :: "nat option"

datatype call_status = Status_success | Status_failure | Status_abort

datatype ('prompt, 'raw, 'gen, 'out) GenerateCallEvent =
  GenerateCallStartEvent start_metadata 'prompt
| GenerateCallEndEvent
    (status: call_status)
    (event_metadata: end_metadata)
    (event_input: 'prompt)
    (event_error: "js_error option")
    (event_rawOutput: "'raw option")
    (event_extractedOutput: "'gen option")
    (event_processedOutput: "'out option")

text \<open>
  The trace of a call: the calls of the observer callbacks, of the argument and of the run
  context, and the call of the retry function, in the order they are made.
\<close>

datatype observer = Argument_observer | Context_observer

datatype ('prompt, 'raw, 'gen, 'out) trace_item =
  Observed observer "('prompt, 'raw, 'gen, 'out) GenerateCallEvent"
| Retry_called

text \<open>\<open>onCallStart?.(event); context?.onCallStart?.(event);\<close> and the same for the end.\<close>

definition notify ::
  "bool \<Rightarrow> bool \<Rightarrow> ('prompt, 'raw, 'gen, 'out) GenerateCallEvent
     \<Rightarrow> ('prompt, 'raw, 'gen, 'out) trace_item list" where
  "notify argument_callback context_callback event =
     (if argument_callback then [Observed Argument_observer event] else []) @
     (if context_callback then [Observed Context_observer event] else [])"

datatype 'out safe_result =
  Result_ok 'out
| Result_not_ok (isAborted: bool) (result_error: "js_error option")

definition is_ok :: "'out safe_result \<Rightarrow> bool" where
  "is_ok r = (case r of Result_ok _ \<Rightarrow> True | Result_not_ok _ _ \<Rightarrow> False)"

text \<open>
  \<open>safeGenerate\<close>: the trace, and the result the promise is resolved with (\<open>Inr\<close>) or the
  error it is rejected with (\<open>Inl\<close>).
\<close>

definition safeGenerate ::
  "'raw generate_env \<Rightarrow> ('input, 'prompt, 'sig, 'raw, 'gen, 'out) generate_input
     \<Rightarrow> 'sig RunContext option
     \<Rightarrow> ('prompt, 'raw, 'gen, 'out) trace_item list \<times> (js_error + 'out safe_result)" where
  "safeGenerate env arg context =
     (let extractOutput' =
            (case arg_extractOutput arg of None \<Rightarrow> model_extractOutput (arg_model arg) | Some f \<Rightarrow> f);
          retry' =
            (case arg_retry arg of None \<Rightarrow> env_retryWithExponentialBackoff env | Some f \<Rightarrow> f)
      in (case arg_prompt arg (arg_input arg) of
           Inl e \<Rightarrow> ([], Inl e)
         | Inr expandedPrompt \<Rightarrow>
             (let startMetadata =
                    \<lparr>callId = env_callId env,
                     meta_functionId = arg_functionId arg,
                     meta_runId = Option.bind context runId,
                     meta_sessionId = Option.bind context sessionId,
                     meta_userId = Option.bind context userId,
                     meta_model_vendor = vendor (arg_model arg),
                     meta_model_name = model_name (arg_model arg),
                     startEpochSeconds = env_startEpochSeconds env\<rparr>;
                  callStartEvent = GenerateCallStartEvent startMetadata expandedPrompt;
                  context_start = (case context of None \<Rightarrow> False | Some c \<Rightarrow> context_onCallStart c);
                  context_end = (case context of None \<Rightarrow> False | Some c \<Rightarrow> context_onCallEnd c);
                  trace1 = notify (arg_onCallStart arg) context_start callStartEvent;
                  rawOutput =
                    retry' (\<lambda>_. generate_raw (arg_model arg) expandedPrompt
                                   (Option.bind context abortSignal));
                  trace2 = trace1 @ [Retry_called];
                  metadata =
                    start_metadata.extend startMetadata
                      (end_metadata.fields (env_durationInMs env)
                         (case rawOutput of
                            Outcome_success _ n \<Rightarrow> Some n
                          | Outcome_failure _ \<Rightarrow> None
                          | Outcome_abort \<Rightarrow> None))
              in (case rawOutput of
                   Outcome_failure err \<Rightarrow>
                     (trace2 @ notify (arg_onCallEnd arg) context_end
                        (GenerateCallEndEvent Status_failure metadata expandedPrompt
                           (Some err) None None None),
                      Inr (Result_not_ok False (Some err)))
                 | Outcome_abort \<Rightarrow>
                     (trace2 @ notify (arg_onCallEnd arg) context_end
                        (GenerateCallEndEvent Status_abort metadata expandedPrompt
                           None None None None),
                      Inr (Result_not_ok True None))
                 | Outcome_success raw _ \<Rightarrow>
                     (case extractOutput' raw of
                        Inl e \<Rightarrow> (trace2, Inl e)
                      | Inr extractedOutput \<Rightarrow>
                          (case arg_processOutput arg extractedOutput of
                             Inl e \<Rightarrow> (trace2, Inl e)
                           | Inr processedOutput \<Rightarrow>
                               (trace2 @ notify (arg_onCallEnd arg) context_end
                                  (GenerateCallEndEvent Status_success metadata expandedPrompt
                                     None (Some raw) (Some extractedOutput)
                                     (Some processedOutput)),
                                Inr (Result_ok processedOutput))))))))"

text \<open>\<open>generate\<close>: the output, or the error that is thrown.\<close>

definition generate ::
  "'raw generate_env \<Rightarrow> ('input, 'prompt, 'sig, 'raw, 'gen, 'out) generate_input
     \<Rightarrow> 'sig RunContext option \<Rightarrow> js_error + 'out" where
  "generate env arg context =
     (case snd (safeGenerate env arg context) of
        Inl e \<Rightarrow> Inl e
      | Inr r \<Rightarrow>
          (case r of
             Result_ok out \<Rightarrow> Inr out
           | Result_not_ok aborted err \<Rightarrow>
               if aborted then Inl (AbortError ''The generation was aborted.'')
               else (case err of Some e \<Rightarrow> Inl e | None \<Rightarrow> Inl (Error ''undefined''))))"

text \<open>The outcome that \<open>safeGenerate\<close> gets from the retry function, for an expanded prompt.\<close>

definition retry_outcome ::
  "'raw generate_env \<Rightarrow> ('input, 'prompt, 'sig, 'raw, 'gen, 'out) generate_input
     \<Rightarrow> 'sig RunContext option \<Rightarrow> 'prompt \<Rightarrow> 'raw RetryOutcome" where
  "retry_outcome env arg context expandedPrompt =
     (case arg_retry arg of None \<Rightarrow> env_retryWithExponentialBackoff env | Some f \<Rightarrow> f)
       (\<lambda>_. generate_raw (arg_model arg) expandedPrompt (Option.bind context abortSignal))"

text \<open>The status that agrees with a result.\<close>

definition status_of_result :: "'out safe_result \<Rightarrow> call_status" where
  "status_of_result r =
     (case r of
        Result_ok _ \<Rightarrow> Status_success
      | Result_not_ok aborted _ \<Rightarrow> if aborted then Status_abort else Status_failure)"

definition is_start_event :: "('prompt, 'raw, 'gen, 'out) GenerateCallEvent \<Rightarrow> bool" where
  "is_start_event ev =
     (case ev of GenerateCallStartEvent _ _ \<Rightarrow> True | GenerateCallEndEvent _ _ _ _ _ _ _ \<Rightarrow> False)"

text \<open>The events that a trace shows, with their observers, and the end events among them.\<close>

fun observed_events ::
  "('prompt, 'raw, 'gen, 'out) trace_item list
     \<Rightarrow> (observer \<times> ('prompt, 'raw, 'gen, 'out) GenerateCallEvent) list" where
  "observed_events [] = []"
| "observed_events (Observed ob ev # items) = (ob, ev) # observed_events items"
| "observed_events (Retry_called # items) = observed_events items"

definition end_events ::
  "('prompt, 'raw, 'gen, 'out) trace_item list
     \<Rightarrow> (observer \<times> ('prompt, 'raw, 'gen, 'out) GenerateCallEvent) list" where
  "end_events items = filter (\<lambda>(ob, ev). \<not> is_start_event ev) (observed_events items)"

text \<open>Example arguments: a model that answers a prompt with its length.\<close>

definition example_env :: "nat generate_env" where
  "example_env =
     \<lparr>env_callId = ''call-1'', env_startEpochSeconds = 1700000000, env_durationInMs = 12,
      env_retryWithExponentialBackoff =
        (\<lambda>call. case call () of Inl e \<Rightarrow> Outcome_failure e | Inr r \<Rightarrow> Outcome_success r 1)\<rparr>"

definition example_generate_model :: "(string, unit, nat, nat) GenerateModel" where
  "example_generate_model =
     \<lparr>vendor = ''example'', model_name = ''length'',
      generate_raw = (\<lambda>p signal. Inr (length p)), model_extractOutput = Inr\<rparr>"

definition example_generate_input :: "(string, string, unit, nat, nat, nat) generate_input" where
  "example_generate_input =
     \<lparr>arg_functionId = None, arg_prompt = Inr, arg_input = ''hi'',
      arg_model = example_generate_model, arg_processOutput = Inr, arg_extractOutput = None,
      arg_retry = None, arg_onCallStart = True, arg_onCallEnd = True\<rparr>"

definition example_start_metadata :: start_metadata where
  "example_start_metadata =
     \<lparr>callId = ''call-1'', meta_functionId = None, meta_runId = None, meta_sessionId = None,
      meta_userId = None, meta_model_vendor = ''example'', meta_model_name = ''length'',
      startEpochSeconds = 1700000000\<rparr>"

text \<open>
  The metadata and the events of a call, named for the statements below: the start event, the
  trace up to the call of the retry function, and the notification of an end event.
\<close>

definition call_start_metadata ::
  "'raw generate_env \<Rightarrow> ('input, 'prompt, 'sig, 'raw, 'gen, 'out) generate_input
     \<Rightarrow> 'sig RunContext option \<Rightarrow> start_metadata" where
  "call_start_metadata env arg context =
     \<lparr>callId = env_callId env,
      meta_functionId = arg_functionId arg,
      meta_runId = Option.bind context runId,
      meta_sessionId = Option.bind context sessionId,
      meta_userId = Option.bind context userId,
      meta_model_vendor = vendor (arg_model arg),
      meta_model_name = model_name (arg_model arg),
      startEpochSeconds = env_startEpochSeconds env\<rparr>"

definition call_end_metadata ::
  "'raw generate_env \<Rightarrow> ('input, 'prompt, 'sig, 'raw, 'gen, 'out) generate_input
     \<Rightarrow> 'sig RunContext option \<Rightarrow> nat option \<Rightarrow> end_metadata" where
  "call_end_metadata env arg context n =
     start_metadata.extend (call_start_metadata env arg context)
       (end_metadata.fields (env_durationInMs env) n)"

definition trace_start ::
  "'raw generate_env \<Rightarrow> ('input, 'prompt, 'sig, 'raw, 'gen, 'out) generate_input
     \<Rightarrow> 'sig RunContext option \<Rightarrow> 'prompt \<Rightarrow> ('prompt, 'raw, 'gen, 'out) trace_item list" where
  "trace_start env arg context p =
     notify (arg_onCallStart arg)
       (case context of None \<Rightarrow> False | Some c \<Rightarrow> context_onCallStart c)
       (GenerateCallStartEvent (call_start_metadata env arg context) p)
     @ [Retry_called]"

definition notify_end ::
  "('input, 'prompt, 'sig, 'raw, 'gen, 'out) generate_input \<Rightarrow> 'sig RunContext option
     \<Rightarrow> ('prompt, 'raw, 'gen, 'out) GenerateCallEvent
     \<Rightarrow> ('prompt, 'raw, 'gen, 'out) trace_item list" where
  "notify_end arg context event =
     notify (arg_onCallEnd arg)
       (case context of None \<Rightarrow> False | Some c \<Rightarrow> context_onCallEnd c) event"

text \<open>
  The example arguments with a retry function that reports an abort, and with a
  \<open>processOutput\<close> that rejects.
\<close>

definition example_aborting_input :: "(string, string, unit, nat, nat, nat) generate_input" where
  "example_aborting_input = example_generate_input\<lparr>arg_retry := Some (\<lambda>call. Outcome_abort)\<rparr>"

definition example_rejecting_input :: "(string, string, unit, nat, nat, nat) generate_input" where
  "example_rejecting_input =
     example_generate_input\<lparr>arg_processOutput := (\<lambda>output. Inl (Error ''invalid output''))\<rparr>"

section \<open>LlamaCppCompletionModel: streaming\<close>

text \<open>
  A streamed chunk, as far as the queue construction reads it: \<open>content\<close> and \<open>stop\<close>.
\<close>

record LlamaCppTextStreamChunk =
  content :: jsstring
  stop :: bool

text \<open>
  The body of a streamed response, as \<open>parseEventSourceStream\<close> (not among the sources)
  presents it: the promise is rejected (\<open>Inl\<close>), or it resolves to a sequence whose
  iteration yields events and may throw.
\<close>

datatype 'd stream_item = Event (data: 'd) | Stream_error js_error

type_synonym 'd response_body = "js_error + 'd stream_item list"

datatype loop_end = Loop_finished | Loop_threw js_error

text \<open>
  The body of the \<open>try\<close> block in \<open>createLlamaCppFullDeltaIterableQueue\<close>: the loop over
  the events. \<open>parseJSON\<close> with the schema of the chunks (not among the sources) is the
  parameter \<open>parse\<close>; it returns the chunk or throws. There is no \<open>break\<close> after
  \<open>queue.close()\<close>.
\<close>

fun process_events ::
  "push_after_close \<Rightarrow> ('d \<Rightarrow> js_error + LlamaCppTextStreamChunk)
     \<Rightarrow> LlamaCppTextStreamChunk Delta AsyncQueue \<Rightarrow> 'd stream_item list
     \<Rightarrow> loop_end \<times> LlamaCppTextStreamChunk Delta AsyncQueue" where
  "process_events policy parse queue [] = (Loop_finished, queue)"
| "process_events policy parse queue (Stream_error e # events) = (Loop_threw e, queue)"
| "process_events policy parse queue (Event d # events) =
     (case parse d of
        Inl e \<Rightarrow> (Loop_threw e, queue)
      | Inr eventData \<Rightarrow>
          (case push policy queue (Delta_delta eventData) of
             Inl e \<Rightarrow> (Loop_threw e, queue)
           | Inr queue1 \<Rightarrow>
               process_events policy parse
                 (if stop eventData then close queue1 else queue1) events))"

text \<open>
  The handler of \<open>.catch\<close>, and the \<open>catch\<close> block of the loop, which does the same. When
  the push throws, the handler of \<open>.catch\<close> ends in a rejection that nothing handles, and
  the \<open>catch\<close> block hands its error on to the handler of \<open>.catch\<close>.
\<close>

definition on_rejected ::
  "push_after_close \<Rightarrow> LlamaCppTextStreamChunk Delta AsyncQueue \<Rightarrow> js_error
     \<Rightarrow> LlamaCppTextStreamChunk Delta AsyncQueue \<times> js_error option" where
  "on_rejected policy queue error =
     (case push policy queue (Delta_error error) of
        Inl e \<Rightarrow> (queue, Some e)
      | Inr queue1 \<Rightarrow> (close queue1, None))"

text \<open>
  \<open>createLlamaCppFullDeltaIterableQueue\<close> returns the queue at once and fills it as the
  events arrive. The result here is the queue when the processing of the body has come to
  its end, and the rejection that nothing handled, if there is one.
\<close>

definition createLlamaCppFullDeltaIterableQueue ::
  "push_after_close \<Rightarrow> ('d \<Rightarrow> js_error + LlamaCppTextStreamChunk) \<Rightarrow> 'd response_body
     \<Rightarrow> LlamaCppTextStreamChunk Delta AsyncQueue \<times> js_error option" where
  "createLlamaCppFullDeltaIterableQueue policy parse stream =
     (let queue = AsyncQueue_new
      in (case stream of
            Inl error \<Rightarrow> on_rejected policy queue error
          | Inr events \<Rightarrow>
              (case process_events policy parse queue events of
                 (Loop_finished, queue1) \<Rightarrow> (queue1, None)
               | (Loop_threw error, queue1) \<Rightarrow>
                   (case push policy queue1 (Delta_error error) of
                      Inl error2 \<Rightarrow> on_rejected policy queue1 error2
                    | Inr queue2 \<Rightarrow> (close queue2, None)))))"

subsection \<open>The call of the API\<close>

text \<open>
  The server: what it answers to the request with a given number, a transport error
  (\<open>Inl\<close>), a response that is not successful, with its status code, or a successful response
  with its body. The state of the world is the number of requests sent so far.
\<close>

datatype 'd http_response = Response_failed nat | Response_ok "'d response_body"

type_synonym 'd server = "nat \<Rightarrow> js_error + 'd http_response"

text \<open>
  Modelled from the spec: \<open>postJsonToApi\<close> (not among the sources) sends one request; a
  transport error and a response that is not successful are thrown as errors of the call, a
  successful response goes to the handler of successful responses, whose result is the
  result of the call.
\<close>

definition postJsonToApi ::
  "'d server \<Rightarrow> ('d response_body \<Rightarrow> js_error + 'r) \<Rightarrow> nat \<Rightarrow> (js_error + 'r) \<times> nat" where
  "postJsonToApi server successfulResponseHandler sent =
     ((case server sent of
         Inl e \<Rightarrow> Inl e
       | Inr (Response_failed code) \<Rightarrow> Inl (Error ''ApiCallError'')
       | Inr (Response_ok body) \<Rightarrow> successfulResponseHandler body),
      Suc sent)"

type_synonym 'r api_call = "nat \<Rightarrow> (js_error + 'r) \<times> nat"

type_synonym 'r retry_function = "'r api_call \<Rightarrow> nat \<Rightarrow> 'r RetryOutcome \<times> nat"

type_synonym 'r throttle_function =
  "(nat \<Rightarrow> 'r RetryOutcome \<times> nat) \<Rightarrow> nat \<Rightarrow> 'r RetryOutcome \<times> nat"

text \<open>
  Modelled from the spec: \<open>retryWithExponentialBackoff\<close> (not among the sources) invokes
  the operation; an abort ends the loop at once with the abort outcome; a failure that is
  retryable is followed by another attempt as long as the number of attempts is below
  \<open>maxTries\<close>; any other failure is the failure outcome. The delays between the attempts
  are not part of the model.
\<close>

fun retry_loop ::
  "nat \<Rightarrow> nat \<Rightarrow> (js_error \<Rightarrow> bool) \<Rightarrow> 'r api_call \<Rightarrow> nat \<Rightarrow> 'r RetryOutcome \<times> nat" where
  "retry_loop 0 tried retryable call sent = (Outcome_failure (Error ''RetryError''), sent)"
| "retry_loop (Suc remaining) tried retryable call sent =
     (case call sent of
        (Inr r, sent') \<Rightarrow> (Outcome_success r (Suc tried), sent')
      | (Inl e, sent') \<Rightarrow>
          (case e of
             AbortError _ \<Rightarrow> (Outcome_abort, sent')
           | Error _ \<Rightarrow>
               if retryable e \<and> 0 < remaining
               then retry_loop remaining (Suc tried) retryable call sent'
               else (Outcome_failure e, sent')))"

definition retryWithExponentialBackoff :: "nat \<Rightarrow> (js_error \<Rightarrow> bool) \<Rightarrow> 'r retry_function" where
  "retryWithExponentialBackoff maxTries retryable call sent =
     retry_loop maxTries 0 retryable call sent"

text \<open>Modelled from the spec: \<open>throttleOff\<close> is the identity.\<close>

definition throttleOff :: "'r throttle_function" where
  "throttleOff gated = gated"

text \<open>
  Modelled from the spec: \<open>callWithRetryAndThrottle\<close> (not among the sources): the
  throttle gates the entry, the retry function governs the gated call; the invocation ends
  in one successful result or one terminal failure or abort.
\<close>

definition callWithRetryAndThrottle ::
  "'r retry_function \<Rightarrow> 'r throttle_function \<Rightarrow> 'r api_call \<Rightarrow> nat \<Rightarrow> (js_error + 'r) \<times> nat" where
  "callWithRetryAndThrottle retry throttle call sent =
     (case throttle (retry call) sent of
        (Outcome_success r n, sent') \<Rightarrow> (Inr r, sent')
      | (Outcome_failure e, sent') \<Rightarrow> (Inl e, sent')
      | (Outcome_abort, sent') \<Rightarrow> (Inl (AbortError ''The call was aborted.''), sent'))"

text \<open>The retry function and the throttle function of an API configuration.\<close>

record 'r ApiConfiguration =
  retry :: "'r retry_function"
  throttle :: "'r throttle_function"

text \<open>
  \<open>callAPI\<close>: the request is sent inside \<open>callWithRetryAndThrottle\<close>, with the handler of
  the response format as the handler of successful responses. The request itself (URL,
  headers, body) is of no consequence for the answers of the server of the model.
\<close>

definition callAPI ::
  "'r ApiConfiguration \<Rightarrow> 'd server \<Rightarrow> ('d response_body \<Rightarrow> js_error + 'r) \<Rightarrow> nat
     \<Rightarrow> (js_error + 'r) \<times> nat" where
  "callAPI api server handler sent =
     callWithRetryAndThrottle (retry api) (throttle api)
       (\<lambda>sent. postJsonToApi server handler sent) sent"

text \<open>
  The response format \<open>deltaIterable\<close>: its handler resolves to the queue and never
  throws. \<open>doStreamText\<close> is \<open>callAPI\<close> with this format.
\<close>

definition deltaIterable_handler ::
  "push_after_close \<Rightarrow> ('d \<Rightarrow> js_error + LlamaCppTextStreamChunk) \<Rightarrow> 'd response_body
     \<Rightarrow> js_error + LlamaCppTextStreamChunk Delta AsyncQueue \<times> js_error option" where
  "deltaIterable_handler policy parse body =
     Inr (createLlamaCppFullDeltaIterableQueue policy parse body)"

definition llamacpp_doStreamText ::
  "(LlamaCppTextStreamChunk Delta AsyncQueue \<times> js_error option) ApiConfiguration
     \<Rightarrow> push_after_close \<Rightarrow> ('d \<Rightarrow> js_error + LlamaCppTextStreamChunk) \<Rightarrow> 'd server \<Rightarrow> nat
     \<Rightarrow> (js_error + LlamaCppTextStreamChunk Delta AsyncQueue \<times> js_error option) \<times> nat" where
  "llamacpp_doStreamText api policy parse server sent =
     callAPI api server (deltaIterable_handler policy parse) sent"

subsection \<open>Specification of a stream that fails\<close>

text \<open>
  The chunks of the events that come before the first error of a body, and that error: the
  error that the iteration throws or that parsing an event throws.
\<close>

fun parsed_prefix ::
  "('d \<Rightarrow> js_error + LlamaCppTextStreamChunk) \<Rightarrow> 'd stream_item list
     \<Rightarrow> LlamaCppTextStreamChunk list" where
  "parsed_prefix parse [] = []"
| "parsed_prefix parse (Stream_error e # events) = []"
| "parsed_prefix parse (Event d # events) =
     (case parse d of Inl e \<Rightarrow> [] | Inr chunk \<Rightarrow> chunk # parsed_prefix parse events)"

fun first_error ::
  "('d \<Rightarrow> js_error + LlamaCppTextStreamChunk) \<Rightarrow> 'd stream_item list \<Rightarrow> js_error option" where
  "first_error parse [] = None"
| "first_error parse (Stream_error e # events) = Some e"
| "first_error parse (Event d # events) =
     (case parse d of Inl e \<Rightarrow> Some e | Inr chunk \<Rightarrow> first_error parse events)"

text \<open>The error that a call throws when the request with a given number does not connect.\<close>

definition connection_error :: "'d server \<Rightarrow> nat \<Rightarrow> js_error option" where
  "connection_error server n =
     (case server n of
        Inl e \<Rightarrow> Some e
      | Inr (Response_failed code) \<Rightarrow> Some (Error ''ApiCallError'')
      | Inr (Response_ok body) \<Rightarrow> None)"

text \<open>
  Example: events whose data is a chunk or is malformed, a server that fails to connect once
  and then streams a chunk and a malformed event, and a configuration with three tries.
\<close>

definition example_parse :: "(jsstring \<times> bool) option \<Rightarrow> js_error + LlamaCppTextStreamChunk" where
  "example_parse d =
     (case d of
        None \<Rightarrow> Inl (Error ''JSONParseError'')
      | Some (c, s) \<Rightarrow> Inr \<lparr>content = c, stop = s\<rparr>)"

definition example_server :: "(jsstring \<times> bool) option server" where
  "example_server n =
     (if n = 0 then Inl (Error ''ECONNRESET'')
      else Inr (Response_ok (Inr [Event (Some (js ''Hi'', False)), Event None])))"

definition example_api_configuration ::
  "(LlamaCppTextStreamChunk Delta AsyncQueue \<times> js_error option) ApiConfiguration" where
  "example_api_configuration =
     \<lparr>retry = retryWithExponentialBackoff 3 (\<lambda>e. True), throttle = throttleOff\<rparr>"

text \<open>
  The example arguments with a retry function that reports a failure, and a server that, once
  connected, streams two chunks and no malformed event.
\<close>

definition example_failing_input :: "(string, string, unit, nat, nat, nat) generate_input" where
  "example_failing_input =
     example_generate_input\<lparr>arg_retry := Some (\<lambda>call. Outcome_failure (Error ''503''))\<rparr>"

definition example_server_clean :: "(jsstring \<times> bool) option server" where
  "example_server_clean n =
     (if n = 0 then Inl (Error ''ECONNRESET'')
      else Inr (Response_ok
             (Inr [Event (Some (js ''Hi'', False)), Event (Some (js ''!'', True))])))"

section \<open>Properties of the white space trimming of streamText\<close>

lemma trimEnd_trailing: "trimEnd t @ (case match_trailing_whitespace t of Some m \<Rightarrow> m | None \<Rightarrow> []) = t"
proof -
  have "rev (dropWhile isWhiteSpace (rev t)) @ rev (takeWhile isWhiteSpace (rev t)) = t"
    by (metis rev_append rev_rev_ident takeWhile_dropWhile_id)
  then show ?thesis
    by (auto simp: trimEnd_def match_trailing_whitespace_def Let_def)
qed

lemma trailing_all_ws:
  "list_all isWhiteSpace (case match_trailing_whitespace t of Some m \<Rightarrow> m | None \<Rightarrow> [])"
  by (auto simp: match_trailing_whitespace_def Let_def list_all_iff dest: set_takeWhileD)

lemma trimEnd_last: "ends_in_text (trimEnd t)"
proof (cases "dropWhile isWhiteSpace (rev t)")
  case Nil then show ?thesis by (simp add: trimEnd_def ends_in_text_def)
next
  case (Cons a as)
  then have "\<not> isWhiteSpace a" by (metis hd_dropWhile list.sel(1) list.distinct(1))
  with Cons show ?thesis by (simp add: trimEnd_def ends_in_text_def)
qed

lemma ends_in_text_append: "ends_in_text x \<Longrightarrow> ends_in_text y \<Longrightarrow> ends_in_text (x @ y)"
  by (cases "y = []") (auto simp: ends_in_text_def)

lemma trimEnd_append_ws:
  assumes w: "list_all isWhiteSpace w" and x: "ends_in_text x"
  shows "trimEnd (x @ w) = x"
proof -
  have "dropWhile isWhiteSpace (rev w @ rev x) = dropWhile isWhiteSpace (rev x)"
    using w by (simp add: dropWhile_append list_all_iff)
  moreover have "dropWhile isWhiteSpace (rev x) = rev x"
    using x by (cases x rule: rev_cases) (auto simp: ends_in_text_def)
  ultimately show ?thesis by (simp add: trimEnd_def)
qed

lemma nonempty_fragments_Nil: "nonempty_fragments ex [] = []"
  by (simp add: nonempty_fragments_def map_filter_simps)

lemma nonempty_fragments_Cons:
  "nonempty_fragments ex (v # vs) =
     (case ex v of None \<Rightarrow> nonempty_fragments ex vs
      | Some f \<Rightarrow> if f = [] then nonempty_fragments ex vs else f # nonempty_fragments ex vs)"
  by (simp add: nonempty_fragments_def map_filter_simps split: option.splits)

lemma processDelta_skip:
  "ex v = None \<or> ex v = Some [] \<Longrightarrow> processDelta b ex s v = (None, s)"
  by (auto simp: processDelta_def)

lemma processDelta_trim:
  assumes "ex v = Some f" "f \<noteq> []"
    and "t = (if isFirstDelta s then trimStart f else trailingWhitespace s @ f)"
  shows "processDelta True ex s v =
           (Some (trimEnd t),
            s\<lparr>accumulatedText := accumulatedText s @ trimEnd t, isFirstDelta := False,
              trailingWhitespace := (case match_trailing_whitespace t of Some m \<Rightarrow> m | None \<Rightarrow> [])\<rparr>)"
  using assms by (simp add: processDelta_def Let_def)

lemma drain_trim_invariant:
  assumes "executeStreamCall_drain (processDelta True ex) onDone s (map Delta_delta vs) = (outs, fin, s')"
    and "list_all isWhiteSpace (trailingWhitespace s)"
    and "isFirstDelta s \<longrightarrow> trailingWhitespace s = []"
  shows "fin = Completed \<and>
         length outs = length (nonempty_fragments ex vs) \<and>
         concat outs @ trailingWhitespace s' = pending_text s (nonempty_fragments ex vs) \<and>
         list_all isWhiteSpace (trailingWhitespace s') \<and>
         ends_in_text (concat outs) \<and>
         accumulatedText s' = accumulatedText s @ concat outs \<and>
         textPromise s' = (case textPromise s of None \<Rightarrow> Some (accumulatedText s') | Some t \<Rightarrow> Some t)"
  using assms
proof (induction vs arbitrary: s outs fin s')
  case Nil
  then show ?case
    by (auto simp: onDone_def pending_text_def spec_untrimmed_text_def ends_in_text_def
        nonempty_fragments_Nil split: option.splits)
next
  case (Cons v vs)
  show ?case
  proof (cases "ex v = None \<or> ex v = Some []")
    case True
    then have pd: "processDelta True ex s v = (None, s)" by (rule processDelta_skip)
    have nf: "nonempty_fragments ex (v # vs) = nonempty_fragments ex vs"
      using True by (auto simp: nonempty_fragments_Cons)
    from Cons.prems(1) pd have "executeStreamCall_drain (processDelta True ex) onDone s (map Delta_delta vs) = (outs, fin, s')"
      by (simp split: prod.splits)
    from Cons.IH[OF this Cons.prems(2,3)] show ?thesis by (simp add: nf)
  next
    case False
    then obtain f where f: "ex v = Some f" "f \<noteq> []" by auto
    define t where "t = (if isFirstDelta s then trimStart f else trailingWhitespace s @ f)"
    define s1 where "s1 = s\<lparr>accumulatedText := accumulatedText s @ trimEnd t, isFirstDelta := False,
              trailingWhitespace := (case match_trailing_whitespace t of Some m \<Rightarrow> m | None \<Rightarrow> [])\<rparr>"
    have pd: "processDelta True ex s v = (Some (trimEnd t), s1)"
      unfolding s1_def using f t_def by (rule processDelta_trim)
    obtain outs1 where r: "executeStreamCall_drain (processDelta True ex) onDone s1 (map Delta_delta vs) = (outs1, fin, s')"
      and outs: "outs = trimEnd t # outs1"
      using Cons.prems(1) pd by (auto split: prod.splits)
    have ws1: "list_all isWhiteSpace (trailingWhitespace s1)"
      by (simp add: s1_def trailing_all_ws)
    have nf1: "isFirstDelta s1 \<longrightarrow> trailingWhitespace s1 = []" by (simp add: s1_def)
    note ih = Cons.IH[OF r ws1 nf1]
    have nf: "nonempty_fragments ex (v # vs) = f # nonempty_fragments ex vs"
      using f by (simp add: nonempty_fragments_Cons)
    have tw: "trimEnd t @ trailingWhitespace s1 = t"
      by (simp add: s1_def trimEnd_trailing)
    have pend: "trimEnd t @ pending_text s1 fs = pending_text s (f # fs)" for fs
    proof -
      have "trimEnd t @ pending_text s1 fs = (trimEnd t @ trailingWhitespace s1) @ concat fs"
        by (simp add: pending_text_def s1_def)
      also have "\<dots> = t @ concat fs" by (simp only: tw)
      also have "\<dots> = pending_text s (f # fs)"
        by (simp add: pending_text_def t_def spec_untrimmed_text_def)
      finally show ?thesis .
    qed
    have acc: "accumulatedText s1 = accumulatedText s @ trimEnd t" by (simp add: s1_def)
    have tp: "textPromise s1 = textPromise s" by (simp add: s1_def)
    show ?thesis
      using ih pend[of "nonempty_fragments ex vs"]
      by (simp add: outs nf acc tp ends_in_text_append trimEnd_last)
  qed
qed

text \<open>
  Claim C1. With trimming enabled (\<open>trimWhitespace\<close> not \<open>false\<close>), for every sequence of
  delta values: a fragment that is not empty is emitted as the text before its trailing white
  space, where the text is the fragment without its leading white space for the first such
  fragment, and the held-back white space followed by the whole fragment for every later one;
  the trailing white space is held back for the next fragment, so nothing but leading white
  space of the first fragment is lost on the way. The emitted fragments concatenate to the
  text of the fragments without the leading white space of the first fragment and without
  the trailing white space of the whole: what is still held back when the sequence ends is
  dropped. The fragments \<open>" Hello"\<close>, \<open>" world "\<close> are emitted as \<open>"Hello"\<close>,
  \<open>" world"\<close>, together \<open>"Hello world"\<close>.
\<close>

theorem streamText_whitespace_trimming:
  fixes model :: "('prompt, 'raw) TextStreamingModel"
  assumes trim: "shouldTrimWhitespace model"
  shows
    "(\<forall>(s::streamText_state) v f. extractTextDelta model v = Some f \<and> f \<noteq> [] \<longrightarrow>
        (case processDelta (shouldTrimWhitespace model) (extractTextDelta model) s v of
           (out, s') \<Rightarrow>
             out = Some (trimEnd (if isFirstDelta s then trimStart f else trailingWhitespace s @ f)) \<and>
             the out @ trailingWhitespace s' =
               (if isFirstDelta s then trimStart f else trailingWhitespace s @ f) \<and>
             list_all isWhiteSpace (trailingWhitespace s') \<and> \<not> isFirstDelta s')) \<and>
     (\<forall>vs. case drain_textStream model (map Delta_delta vs) of
        (outs, fin, s') \<Rightarrow>
           fin = Completed \<and>
           concat outs @ trailingWhitespace s' =
              spec_untrimmed_text (nonempty_fragments (extractTextDelta model) vs) \<and>
           list_all isWhiteSpace (trailingWhitespace s') \<and>
           concat outs = spec_trimmed_text (nonempty_fragments (extractTextDelta model) vs)) \<and>
     (\<forall>v1 v2. extractTextDelta model v1 = Some (js '' Hello'') \<and>
              extractTextDelta model v2 = Some (js '' world '') \<longrightarrow>
        fst (drain_textStream model [Delta_delta v1, Delta_delta v2]) = [js ''Hello'', js '' world''] \<and>
        concat (fst (drain_textStream model [Delta_delta v1, Delta_delta v2])) = js ''Hello world'')"
proof (intro conjI allI impI)
  fix s :: streamText_state and v f
  assume a: "extractTextDelta model v = Some f \<and> f \<noteq> []"
  define t where "t = (if isFirstDelta s then trimStart f else trailingWhitespace s @ f)"
  have "processDelta True (extractTextDelta model) s v =
           (Some (trimEnd t),
            s\<lparr>accumulatedText := accumulatedText s @ trimEnd t, isFirstDelta := False,
              trailingWhitespace := (case match_trailing_whitespace t of Some m \<Rightarrow> m | None \<Rightarrow> [])\<rparr>)"
    using a t_def by (intro processDelta_trim) auto
  then show "case processDelta (shouldTrimWhitespace model) (extractTextDelta model) s v of
           (out, s') \<Rightarrow>
             out = Some (trimEnd (if isFirstDelta s then trimStart f else trailingWhitespace s @ f)) \<and>
             the out @ trailingWhitespace s' =
               (if isFirstDelta s then trimStart f else trailingWhitespace s @ f) \<and>
             list_all isWhiteSpace (trailingWhitespace s') \<and> \<not> isFirstDelta s'"
    using trim by (simp add: trimEnd_trailing trailing_all_ws flip: t_def)
next
  fix vs
  obtain outs fin s' where r: "drain_textStream model (map Delta_delta vs) = (outs, fin, s')"
    by (cases "drain_textStream model (map Delta_delta vs)") auto
  then have r': "executeStreamCall_drain (processDelta True (extractTextDelta model)) onDone
                   streamText_init (map Delta_delta vs) = (outs, fin, s')"
    using trim by (simp add: drain_textStream_def drain_def textStream_of_def)
  have inv: "fin = Completed \<and>
         length outs = length (nonempty_fragments (extractTextDelta model) vs) \<and>
         concat outs @ trailingWhitespace s' = pending_text streamText_init (nonempty_fragments (extractTextDelta model) vs) \<and>
         list_all isWhiteSpace (trailingWhitespace s') \<and>
         ends_in_text (concat outs)"
    using drain_trim_invariant[OF r'] by (simp add: streamText_init_def)
  have p: "pending_text streamText_init fs = spec_untrimmed_text fs" for fs
    by (simp add: pending_text_def streamText_init_def)
  have "spec_trimmed_text (nonempty_fragments (extractTextDelta model) vs) =
          trimEnd (concat outs @ trailingWhitespace s')"
    using inv by (simp add: spec_trimmed_text_def p)
  also have "\<dots> = concat outs"
    using inv by (intro trimEnd_append_ws) auto
  finally show "case drain_textStream model (map Delta_delta vs) of
        (outs, fin, s') \<Rightarrow>
           fin = Completed \<and>
           concat outs @ trailingWhitespace s' =
              spec_untrimmed_text (nonempty_fragments (extractTextDelta model) vs) \<and>
           list_all isWhiteSpace (trailingWhitespace s') \<and>
           concat outs = spec_trimmed_text (nonempty_fragments (extractTextDelta model) vs)"
    using inv by (simp add: r p)
next
  fix v1 v2
  assume a: "extractTextDelta model v1 = Some (js '' Hello'') \<and>
              extractTextDelta model v2 = Some (js '' world '')"
  show "fst (drain_textStream model [Delta_delta v1, Delta_delta v2]) = [js ''Hello'', js '' world'']"
    using a trim
    by (simp add: drain_textStream_def drain_def textStream_of_def processDelta_def streamText_init_def js_def trimStart_def
        trimEnd_def match_trailing_whitespace_def isWhiteSpace_def Let_def)
  then show "concat (fst (drain_textStream model [Delta_delta v1, Delta_delta v2])) = js ''Hello world''"
    by (simp add: js_def)
qed

theorem streamText_whitespace_trimming_witness:
  "shouldTrimWhitespace example_model \<and>
   processDelta (shouldTrimWhitespace example_model) (extractTextDelta example_model)
       streamText_init (js '' Hello '') =
     (Some (js ''Hello''),
      \<lparr>accumulatedText = js ''Hello'', isFirstDelta = False, trailingWhitespace = js '' '',
         textPromise = None\<rparr>) \<and>
   fst (drain_textStream example_model [Delta_delta (js '' Hello''), Delta_delta (js '' world '')])
     = [js ''Hello'', js '' world''] \<and>
   concat (fst (drain_textStream example_model
                  [Delta_delta (js '' Hello''), Delta_delta (js '' world '')]))
     = js ''Hello world''"
proof -
  have h: "shouldTrimWhitespace example_model"
    by (simp add: shouldTrimWhitespace_def example_model_def)
  note t = streamText_whitespace_trimming[OF h]
  have e: "extractTextDelta example_model (js '' Hello'') = Some (js '' Hello'') \<and>
           extractTextDelta example_model (js '' world '') = Some (js '' world '')"
    by (simp add: example_model_def)
  have f: "extractTextDelta example_model (js '' Hello '') = Some (js '' Hello '') \<and>
           js '' Hello '' \<noteq> []"
    by (simp add: example_model_def js_def)
  obtain out s' where pd:
    "processDelta (shouldTrimWhitespace example_model) (extractTextDelta example_model)
       streamText_init (js '' Hello '') = (out, s')"
    by (cases "processDelta (shouldTrimWhitespace example_model) (extractTextDelta example_model)
       streamText_init (js '' Hello '')") auto
  from t[THEN conjunct1, rule_format, OF f, of streamText_init] pd have step:
    "out = Some (trimEnd (if isFirstDelta streamText_init then trimStart (js '' Hello '')
                          else trailingWhitespace streamText_init @ js '' Hello ''))"
    by simp
  have v: "trimEnd (trimStart (js '' Hello '')) = js ''Hello''"
    by (simp add: trimEnd_def trimStart_def js_def isWhiteSpace_def)
  have s: "s' = \<lparr>accumulatedText = js ''Hello'', isFirstDelta = False,
                  trailingWhitespace = js '' '', textPromise = None\<rparr>"
    using pd
    by (simp add: processDelta_def shouldTrimWhitespace_def example_model_def
        streamText_init_def Let_def trimEnd_def trimStart_def match_trailing_whitespace_def
        js_def isWhiteSpace_def)
  from step v have o: "out = Some (js ''Hello'')" by (simp add: streamText_init_def)
  from t[THEN conjunct2, THEN conjunct2, rule_format, OF e]
  have d: "fst (drain_textStream example_model [Delta_delta (js '' Hello''), Delta_delta (js '' world '')])
     = [js ''Hello'', js '' world''] \<and>
     concat (fst (drain_textStream example_model
                  [Delta_delta (js '' Hello''), Delta_delta (js '' world '')]))
     = js ''Hello world''"
    .
  from h pd o s d show ?thesis by (simp add: js_def)
qed

section \<open>Properties of AsyncQueue\<close>

lemma consume_closed:
  "closed q \<Longrightarrow> consume q position = (drop position (values q), Terminated)"
proof (induction "length (values q) - position" arbitrary: position)
  case 0
  then show ?case by (subst consume.simps) (simp add: iterator_next_def)
next
  case (Suc n)
  then have lt: "position < length (values q)" and n: "n = length (values q) - Suc position"
    by auto
  have "consume q (Suc position) = (drop (Suc position) (values q), Terminated)"
    using Suc.hyps(1)[OF n Suc.prems] .
  then show ?case
    using lt by (subst consume.simps) (simp add: iterator_next_def Cons_nth_drop_Suc)
qed

lemma consume_open:
  "\<not> closed q \<Longrightarrow> consume q position = (drop position (values q), Waiting)"
proof (induction "length (values q) - position" arbitrary: position)
  case 0
  then show ?case by (subst consume.simps) (simp add: iterator_next_def)
next
  case (Suc n)
  then have lt: "position < length (values q)" and n: "n = length (values q) - Suc position"
    by auto
  have "consume q (Suc position) = (drop (Suc position) (values q), Waiting)"
    using Suc.hyps(1)[OF n Suc.prems] .
  then show ?case
    using lt by (subst consume.simps) (simp add: iterator_next_def Cons_nth_drop_Suc)
qed

lemma push_all_open:
  "\<not> closed q \<Longrightarrow> push_all policy q xs = Inr (q\<lparr>values := values q @ xs\<rparr>)"
  by (induction xs arbitrary: q) (simp_all add: push_def)

text \<open>
  Claim C5. On a new queue, pushing the items of any list in order and then closing the queue
  succeeds, and a fresh consumer (an iterator from the start of the queue) observes exactly
  these items, in the order of the pushes, and then terminates. On a queue that is open and
  holds items already, the consumer observes the items already buffered and then the pushed
  items.
\<close>

theorem AsyncQueue_pushes_then_close:
  "(\<exists>q. push_all policy AsyncQueue_new xs = Inr q \<and>
         values (close q) = xs \<and> closed (close q) \<and>
         consume (close q) 0 = (xs, Terminated)) \<and>
   (\<forall>q0. \<not> closed q0 \<longrightarrow>
      (\<exists>q. push_all policy q0 xs = Inr q \<and>
            consume (close q) 0 = (values q0 @ xs, Terminated)))"
proof (intro conjI allI impI)
  have "push_all policy (AsyncQueue_new :: 'a AsyncQueue) xs = Inr (AsyncQueue_new\<lparr>values := xs\<rparr>)"
    by (simp add: push_all_open AsyncQueue_new_def)
  moreover have "consume (close (AsyncQueue_new\<lparr>values := xs\<rparr>)) 0 = (xs, Terminated)"
    by (simp add: consume_closed close_def)
  ultimately show "\<exists>q. push_all policy AsyncQueue_new xs = Inr q \<and>
         values (close q) = xs \<and> closed (close q) \<and>
         consume (close q) 0 = (xs, Terminated)"
    by (simp add: close_def)
next
  fix q0 :: "'a AsyncQueue"
  assume "\<not> closed q0"
  then have "push_all policy q0 xs = Inr (q0\<lparr>values := values q0 @ xs\<rparr>)"
    by (rule push_all_open)
  moreover have "consume (close (q0\<lparr>values := values q0 @ xs\<rparr>)) 0 = (values q0 @ xs, Terminated)"
    by (simp add: consume_closed close_def)
  ultimately show "\<exists>q. push_all policy q0 xs = Inr q \<and>
            consume (close q) 0 = (values q0 @ xs, Terminated)"
    by simp
qed

theorem AsyncQueue_pushes_then_close_witness:
  "consume (close \<lparr>values = [1::nat, 2, 3], closed = False\<rparr>) 0 = ([1, 2, 3], Terminated) \<and>
   \<not> closed \<lparr>values = [0::nat], closed = False\<rparr> \<and>
   (\<exists>q. push_all Raises \<lparr>values = [0::nat], closed = False\<rparr> [1, 2, 3] = Inr q \<and>
        consume (close q) 0 = ([0, 1, 2, 3], Terminated))"
proof -
  note t = AsyncQueue_pushes_then_close[of Raises "[1::nat, 2, 3]"]
  from t[THEN conjunct1]
  have 1: "consume (close \<lparr>values = [1::nat, 2, 3], closed = False\<rparr>) 0 = ([1, 2, 3], Terminated)"
    by (simp add: AsyncQueue_new_def push_def)
  have o: "\<not> closed \<lparr>values = [0::nat], closed = False\<rparr>" by simp
  from t[THEN conjunct2] o
  have 2: "\<exists>q. push_all Raises \<lparr>values = [0::nat], closed = False\<rparr> [1, 2, 3] = Inr q \<and>
        consume (close q) 0 = (values \<lparr>values = [0::nat], closed = False\<rparr> @ [1, 2, 3], Terminated)"
    by blast
  from 1 o 2 show ?thesis by simp
qed

section \<open>The text promise of streamText\<close>

lemma processDelta_accumulates:
  "processDelta b ex s v = (out, s') \<Longrightarrow>
     accumulatedText s' = accumulatedText s @ (case out of None \<Rightarrow> [] | Some t \<Rightarrow> t) \<and>
     textPromise s' = textPromise s"
  by (auto simp: processDelta_def Let_def split: option.splits if_splits)

lemma drain_accumulates:
  "executeStreamCall_drain (processDelta b ex) onDone s ds = (outs, fin, s') \<Longrightarrow>
     accumulatedText s' = accumulatedText s @ concat outs \<and>
     textPromise s' =
       (case fin of
          Completed \<Rightarrow> (case textPromise s of None \<Rightarrow> Some (accumulatedText s') | Some t \<Rightarrow> Some t)
        | Failed e \<Rightarrow> textPromise s)"
proof (induction ds arbitrary: s outs fin s')
  case Nil
  then show ?case by (auto simp: onDone_def split: option.splits)
next
  case (Cons d ds)
  show ?case
  proof (cases d)
    case (Delta_error e)
    with Cons.prems show ?thesis by auto
  next
    case (Delta_delta v)
    obtain out s1 where pd: "processDelta b ex s v = (out, s1)"
      by (cases "processDelta b ex s v") auto
    obtain outs1 where r: "executeStreamCall_drain (processDelta b ex) onDone s1 ds = (outs1, fin, s')"
      and outs: "outs = (case out of None \<Rightarrow> outs1 | Some x \<Rightarrow> x # outs1)"
      using Cons.prems pd Delta_delta by (auto split: prod.splits)
    from processDelta_accumulates[OF pd] Cons.IH[OF r] show ?thesis
      by (auto simp: outs split: option.splits stream_end.splits)
  qed
qed

text \<open>
  Claim C2. When \<open>streamText\<close> is called with \<open>fullResponse: true\<close> and returns, it
  returns the object with the stream, the text promise and the metadata. Once the stream has
  been drained to its normal end, the promise is resolved with exactly the concatenation of
  the fragments that the stream emitted; when the stream ends with an error the promise is
  not resolved.
\<close>

theorem streamText_fullResponse_text:
  assumes "streamText startMetadata model prompt options = Inr r"
    and "options_fullResponse options"
  shows "\<exists>deltas. doStreamText model prompt options = Inr deltas \<and>
            r = TextFullResponse (textStream_of model deltas) textPromise startMetadata \<and>
            (case drain (result_textStream r) streamText_init of
               (outs, fin, s') \<Rightarrow>
                 (case fin of
                    Completed \<Rightarrow> result_text r s' = Some (concat outs)
                  | Failed e \<Rightarrow> result_text r s' = None))"
proof -
  from assms obtain deltas where d: "doStreamText model prompt options = Inr deltas"
    and r: "r = TextFullResponse (textStream_of model deltas) textPromise startMetadata"
    by (auto simp: streamText_def executeStreamCall_def textStream_of_def split: sum.splits)
  obtain outs fin s' where dr: "drain_textStream model deltas = (outs, fin, s')"
    by (cases "drain_textStream model deltas") auto
  then have "executeStreamCall_drain
               (processDelta (shouldTrimWhitespace model) (extractTextDelta model))
               onDone streamText_init deltas = (outs, fin, s')"
    by (simp add: drain_textStream_def drain_def textStream_of_def)
  from drain_accumulates[OF this]
  have "case fin of Completed \<Rightarrow> textPromise s' = Some (concat outs)
        | Failed e \<Rightarrow> textPromise s' = None"
    by (auto simp: streamText_init_def split: stream_end.splits)
  with d dr show ?thesis
    unfolding r by (simp add: drain_textStream_def split: stream_end.splits)
qed

theorem streamText_fullResponse_text_witness:
  "options_fullResponse (Some \<lparr>fullResponse = Some True\<rparr>) \<and>
   (\<exists>r s'. streamText () example_model () (Some \<lparr>fullResponse = Some True\<rparr>) = Inr r \<and>
      drain (result_textStream r) streamText_init =
        ([js ''Hello'', js '' world''], Completed, s') \<and>
      result_text r s' = Some (js ''Hello world''))"
proof -
  let ?opts = "Some \<lparr>fullResponse = Some True\<rparr>"
  let ?ds = "[Delta_delta (js '' Hello''), Delta_delta (js '' world '')]"
  have full: "options_fullResponse ?opts" by (simp add: options_fullResponse_def)
  have call: "streamText () example_model () ?opts =
                Inr (TextFullResponse (textStream_of example_model ?ds) textPromise ())"
    by (simp add: streamText_def executeStreamCall_def example_model_def options_fullResponse_def
        textStream_of_def)
  obtain s' where dr: "drain (textStream_of example_model ?ds) streamText_init =
                         ([js ''Hello'', js '' world''], Completed, s')"
    by (simp add: drain_def textStream_of_def processDelta_def streamText_init_def js_def
        trimStart_def trimEnd_def match_trailing_whitespace_def isWhiteSpace_def Let_def
        example_model_def shouldTrimWhitespace_def)
  from streamText_fullResponse_text[OF call full] dr
  have "textPromise s' = Some (js ''Hello world'')" by (auto simp: js_def)
  with full call dr show ?thesis by simp
qed

section \<open>streamSpeech and the shape of the results\<close>

lemma streamText_unfold:
  "streamText startMetadata model prompt options =
     (case doStreamText model prompt options of
        Inl e \<Rightarrow> Inl e
      | Inr deltas \<Rightarrow>
          Inr (if options_fullResponse options
               then TextFullResponse (textStream_of model deltas) textPromise startMetadata
               else TextStream (textStream_of model deltas)))"
  by (simp add: streamText_def executeStreamCall_def textStream_of_def split: sum.splits)

lemma streamSpeech_unfold:
  "streamSpeech policy startMetadata model text options =
      (case streamSpeech_textStream policy text of
         Inl e \<Rightarrow> Inl e
       | Inr textStream \<Rightarrow>
           (case doGenerateSpeechStreamDuplex model textStream options of
              Inl e \<Rightarrow> Inl e
            | Inr deltas \<Rightarrow>
                Inr (if options_fullResponse options
                     then SpeechFullResponse (speechStream_of deltas) startMetadata
                     else SpeechStream (speechStream_of deltas))))"
  by (simp add: streamSpeech_def executeStreamCall_def speechStream_of_def split: sum.splits)

lemma streamSpeech_textStream_stream:
  "streamSpeech_textStream policy (Text_stream it) = Inr it"
  by (simp add: streamSpeech_textStream_def)

lemma streamSpeech_textStream_string:
  "streamSpeech_textStream policy (Text_string s) = Inr (Queue \<lparr>values = [s], closed = True\<rparr>)"
  by (simp add: streamSpeech_textStream_def push_def AsyncQueue_new_def close_def)

lemma options_fullResponse_iff:
  "options_fullResponse options =
     (\<exists>opts. options = Some opts \<and> fullResponse opts = Some True)"
  by (auto simp: options_fullResponse_def split: option.splits)

text \<open>
  Claim C7. For a text argument that is a plain string, \<open>streamSpeech\<close> builds a queue that
  holds exactly that string and is closed, so that a consumer of it observes the string and
  then terminates; this queue is what the model's duplex streaming function is called with,
  and the call is the very call made for a stream argument that is this queue.
\<close>

theorem streamSpeech_string_input:
  "streamSpeech_textStream policy (Text_string s) =
      Inr (Queue \<lparr>values = [s], closed = True\<rparr>) \<and>
   consume \<lparr>values = [s], closed = True\<rparr> 0 = ([s], Terminated) \<and>
   streamSpeech policy startMetadata model (Text_string s) options =
     (case doGenerateSpeechStreamDuplex model (Queue \<lparr>values = [s], closed = True\<rparr>) options of
        Inl e \<Rightarrow> Inl e
      | Inr deltas \<Rightarrow>
          Inr (if options_fullResponse options
               then SpeechFullResponse (speechStream_of deltas) startMetadata
               else SpeechStream (speechStream_of deltas))) \<and>
   streamSpeech policy startMetadata model (Text_string s) options =
     streamSpeech policy startMetadata model
       (Text_stream (Queue \<lparr>values = [s], closed = True\<rparr>)) options"
proof -
  note ts = streamSpeech_textStream_string[of policy s]
  have c: "consume \<lparr>values = [s], closed = True\<rparr> 0 = ([s], Terminated)"
    by (simp add: consume.simps iterator_next_def)
  show ?thesis
    by (simp add: c ts streamSpeech_unfold streamSpeech_textStream_stream)
qed

theorem streamSpeech_string_input_witness:
  "streamSpeech Raises () example_speech_model (Text_string (js ''Hi'')) None =
     Inr (SpeechStream (speechStream_of [Delta_delta 1, Delta_delta 2]))"
proof -
  note t = streamSpeech_string_input[of Raises "js ''Hi''" "()" example_speech_model None]
  from t[THEN conjunct2, THEN conjunct2, THEN conjunct1] show ?thesis
    by (simp add: example_speech_model_def options_fullResponse_def)
qed

text \<open>
  Claim C8. A call of \<open>streamText\<close> or \<open>streamSpeech\<close> returns when the model has started
  the stream. What it returns is the bare stream when there are no options, or no
  \<open>fullResponse\<close> in them, or \<open>fullResponse\<close> is false; and it is the object that bundles
  the stream with the text promise and the metadata (for speech: the stream with the
  metadata) exactly when \<open>fullResponse\<close> is true.
\<close>

theorem stream_result_shape:
  "options_fullResponse options = (\<exists>opts. options = Some opts \<and> fullResponse opts = Some True) \<and>
   streamText startMetadata model prompt options =
     (case doStreamText model prompt options of
        Inl e \<Rightarrow> Inl e
      | Inr deltas \<Rightarrow>
          Inr (if \<exists>opts. options = Some opts \<and> fullResponse opts = Some True
               then TextFullResponse (textStream_of model deltas) textPromise startMetadata
               else TextStream (textStream_of model deltas))) \<and>
   streamSpeech policy startMetadata smodel speech_input options =
     (case doGenerateSpeechStreamDuplex smodel
             (case speech_input of
                Text_string s \<Rightarrow> Queue \<lparr>values = [s], closed = True\<rparr>
              | Text_stream it \<Rightarrow> it) options of
        Inl e \<Rightarrow> Inl e
      | Inr deltas \<Rightarrow>
          Inr (if \<exists>opts. options = Some opts \<and> fullResponse opts = Some True
               then SpeechFullResponse (speechStream_of deltas) startMetadata
               else SpeechStream (speechStream_of deltas))) \<and>
   (\<forall>ts tp md ss. TextStream ts \<noteq> TextFullResponse ts tp md \<and>
                  SpeechStream ss \<noteq> SpeechFullResponse ss md)"
  unfolding options_fullResponse_iff[symmetric]
  by (cases speech_input)
     (simp_all add: streamText_unfold streamSpeech_unfold streamSpeech_textStream_stream
        streamSpeech_textStream_string)

theorem stream_result_shape_witness:
  "streamText () example_model () (Some \<lparr>fullResponse = Some True\<rparr>) =
     Inr (TextFullResponse
            (textStream_of example_model [Delta_delta (js '' Hello''), Delta_delta (js '' world '')])
            textPromise ()) \<and>
   streamText () example_model () None =
     Inr (TextStream
            (textStream_of example_model [Delta_delta (js '' Hello''), Delta_delta (js '' world '')])) \<and>
   streamSpeech Raises () example_speech_model (Text_stream (Other_iterable ())) (Some \<lparr>fullResponse = Some True\<rparr>) =
     Inr (SpeechFullResponse (speechStream_of [Delta_delta 1, Delta_delta 2]) ()) \<and>
   streamSpeech Raises () example_speech_model (Text_stream (Other_iterable ())) None =
     Inr (SpeechStream (speechStream_of [Delta_delta 1, Delta_delta 2]))"
proof -
  note full = stream_result_shape[where options = "Some \<lparr>fullResponse = Some True\<rparr>"
      and startMetadata = "()" and model = example_model and prompt = "()" and policy = Raises
      and smodel = example_speech_model and speech_input = "Text_stream (Other_iterable ())"]
  note bare = stream_result_shape[where options = None
      and startMetadata = "()" and model = example_model and prompt = "()" and policy = Raises
      and smodel = example_speech_model and speech_input = "Text_stream (Other_iterable ())"]
  from full have 1: "streamText () example_model () (Some \<lparr>fullResponse = Some True\<rparr>) =
     Inr (TextFullResponse
            (textStream_of example_model [Delta_delta (js '' Hello''), Delta_delta (js '' world '')])
            textPromise ())"
    and 3: "streamSpeech Raises () example_speech_model (Text_stream (Other_iterable ())) (Some \<lparr>fullResponse = Some True\<rparr>) =
     Inr (SpeechFullResponse (speechStream_of [Delta_delta 1, Delta_delta 2]) ())"
    by (simp_all add: example_model_def example_speech_model_def options_fullResponse_def)
  from bare have 2: "streamText () example_model () None =
     Inr (TextStream
            (textStream_of example_model [Delta_delta (js '' Hello''), Delta_delta (js '' world '')]))"
    and 4: "streamSpeech Raises () example_speech_model (Text_stream (Other_iterable ())) None =
     Inr (SpeechStream (speechStream_of [Delta_delta 1, Delta_delta 2]))"
    by (simp_all add: example_model_def example_speech_model_def options_fullResponse_def)
  from 1 2 3 4 show ?thesis by simp
qed

section \<open>Properties of assembleUrl\<close>

lemma js_slash: "js ''/'' = [0x2F]" and js_slash2: "js ''//'' = [0x2F, 0x2F]"
  by (simp_all add: js_def)

lemma endsWith_slash: "endsWith s [0x2F] \<longleftrightarrow> s \<noteq> [] \<and> last s = 0x2F"
proof (cases s rule: rev_cases)
  case Nil
  then show ?thesis by (simp add: endsWith_def)
next
  case (snoc xs x)
  then show ?thesis by (auto simp: endsWith_def)
qed

lemma startsWith_slash: "startsWith s [0x2F] \<longleftrightarrow> s \<noteq> [] \<and> hd s = 0x2F"
  by (cases s) (auto simp: startsWith_def)

lemma startsWith_slash2:
  "startsWith s [0x2F, 0x2F] \<longleftrightarrow> (\<exists>r. s = 0x2F # 0x2F # r)"
proof (cases s)
  case Nil
  then show ?thesis by (simp add: startsWith_def)
next
  case (Cons a as)
  then show ?thesis by (cases as) (auto simp: startsWith_def)
qed

lemma endsWith_slash2:
  "endsWith s [0x2F, 0x2F] \<longleftrightarrow> (\<exists>r. s = r @ [0x2F, 0x2F])"
proof
  assume "endsWith s [0x2F, 0x2F]"
  then have "drop (length s - 2) s = [0x2F, 0x2F]"
    by (simp add: endsWith_def numeral_2_eq_2)
  then have "s = take (length s - 2) s @ [0x2F, 0x2F]"
    by (metis append_take_drop_id)
  then show "\<exists>r. s = r @ [0x2F, 0x2F]" ..
next
  assume "\<exists>r. s = r @ [0x2F, 0x2F]"
  then show "endsWith s [0x2F, 0x2F]" by (auto simp: endsWith_def)
qed

lemma slice_snoc: "slice_0_minus_1 (xs @ [x]) = xs"
  by (simp add: slice_0_minus_1_def)

lemma strip_trailing_once:
  assumes "\<not> endsWith b (js ''//'')"
  shows "strip_trailing_slashes b = (if endsWith b (js ''/'') then slice_0_minus_1 b else b)"
proof (cases b rule: rev_cases)
  case Nil
  then show ?thesis by (simp add: strip_trailing_slashes_def endsWith_slash js_slash)
next
  case (snoc xs x)
  show ?thesis
  proof (cases "x = 0x2F")
    case False
    with snoc show ?thesis by (simp add: strip_trailing_slashes_def endsWith_slash js_slash)
  next
    case True
    have "xs = [] \<or> last xs \<noteq> 0x2F"
    proof (cases xs rule: rev_cases)
      case Nil then show ?thesis by simp
    next
      case (snoc ys y)
      with assms \<open>b = xs @ [x]\<close> True have "y \<noteq> 0x2F" by (auto simp: endsWith_slash2 js_slash2)
      with snoc show ?thesis by simp
    qed
    then have "dropWhile (\<lambda>c. c = 0x2F) (rev xs) = rev xs"
      by (cases xs rule: rev_cases) auto
    with snoc True show ?thesis
      by (simp add: strip_trailing_slashes_def endsWith_slash slice_snoc js_slash)
  qed
qed

lemma strip_leading_once:
  assumes "\<not> startsWith p (js ''//'')"
  shows "js ''/'' @ strip_leading_slashes p = (if \<not> startsWith p (js ''/'') then js ''/'' @ p else p)"
proof (cases p)
  case Nil
  then show ?thesis by (simp add: strip_leading_slashes_def startsWith_slash js_slash)
next
  case (Cons a as)
  show ?thesis
  proof (cases "a = 0x2F")
    case False
    with Cons show ?thesis by (simp add: strip_leading_slashes_def startsWith_slash js_slash)
  next
    case True
    with assms Cons have "as = [] \<or> hd as \<noteq> 0x2F"
      by (cases as) (auto simp: startsWith_slash2 js_slash2)
    then have "dropWhile (\<lambda>c. c = 0x2F) as = as" by (cases as) auto
    with Cons True show ?thesis
      by (simp add: strip_leading_slashes_def startsWith_slash js_slash)
  qed
qed

text \<open>
  Claim C9, amended. A base path that ends in exactly one slash gives the URL that the base
  path without this slash gives; a path that does not start with a slash gives the URL that
  the path with a slash in front gives; and when the base path does not end in two or more
  slashes and the path does not start with two or more slashes, the URL has exactly one slash
  between the base path and the path.
\<close>

theorem assembleUrl_slash_normalisation:
  "(\<not> endsWith b (js ''/'') \<longrightarrow>
      assembleUrl (this\<lparr>baseUrl := (baseUrl this)\<lparr>path := b @ js ''/''\<rparr>\<rparr>) p =
      assembleUrl (this\<lparr>baseUrl := (baseUrl this)\<lparr>path := b\<rparr>\<rparr>) p) \<and>
   (\<not> startsWith p (js ''/'') \<longrightarrow> assembleUrl this p = assembleUrl this (js ''/'' @ p)) \<and>
   (\<not> endsWith (path (baseUrl this)) (js ''//'') \<and> \<not> startsWith p (js ''//'') \<longrightarrow>
      assembleUrl this p = spec_one_slash_url this p)"
proof (intro conjI impI)
  assume "\<not> endsWith b (js ''/'')"
  moreover have "endsWith (b @ js ''/'') (js ''/'')" by (simp add: endsWith_slash js_slash)
  moreover have "slice_0_minus_1 (b @ js ''/'') = b" by (simp add: js_slash slice_snoc)
  ultimately show "assembleUrl (this\<lparr>baseUrl := (baseUrl this)\<lparr>path := b @ js ''/''\<rparr>\<rparr>) p =
      assembleUrl (this\<lparr>baseUrl := (baseUrl this)\<lparr>path := b\<rparr>\<rparr>) p"
    by (simp add: assembleUrl_def)
next
  assume "\<not> startsWith p (js ''/'')"
  moreover have "startsWith (js ''/'' @ p) (js ''/'')" by (simp add: startsWith_slash js_slash)
  ultimately show "assembleUrl this p = assembleUrl this (js ''/'' @ p)"
    by (simp add: assembleUrl_def)
next
  assume a: "\<not> endsWith (path (baseUrl this)) (js ''//'') \<and> \<not> startsWith p (js ''//'')"
  from a strip_trailing_once[of "path (baseUrl this)"] strip_leading_once[of p]
  show "assembleUrl this p = spec_one_slash_url this p"
    by (simp add: assembleUrl_def spec_one_slash_url_def Let_def)
qed

theorem assembleUrl_slash_normalisation_witness:
  "assembleUrl (example_api\<lparr>baseUrl := (baseUrl example_api)\<lparr>path := js ''/v1/''\<rparr>\<rparr>) (js ''completion'')
     = js ''http://127.0.0.1:8080/v1/completion'' \<and>
   assembleUrl example_api (js ''/completion'') = js ''http://127.0.0.1:8080/v1/completion'' \<and>
   spec_one_slash_url example_api (js ''completion'') = js ''http://127.0.0.1:8080/v1/completion''"
proof -
  have h1: "\<not> endsWith (js ''/v1'') (js ''/'')"
    and h2: "\<not> startsWith (js ''completion'') (js ''/'')"
    and h3: "\<not> endsWith (path (baseUrl example_api)) (js ''//'') \<and> \<not> startsWith (js ''completion'') (js ''//'')"
    by (simp_all add: endsWith_def startsWith_def js_def example_api_def)
  have e: "assembleUrl example_api (js ''completion'') = js ''http://127.0.0.1:8080/v1/completion''"
    by (simp add: assembleUrl_def example_api_def endsWith_def startsWith_def js_def)
  have p: "js ''/v1'' @ js ''/'' = js ''/v1/''" "js ''/'' @ js ''completion'' = js ''/completion''"
    "example_api\<lparr>baseUrl := (baseUrl example_api)\<lparr>path := js ''/v1''\<rparr>\<rparr> = example_api"
    by (simp_all add: js_def example_api_def)
  note t = assembleUrl_slash_normalisation[of "js ''/v1''" example_api "js ''completion''"]
  from t h1 have 1: "assembleUrl (example_api\<lparr>baseUrl := (baseUrl example_api)\<lparr>path := js ''/v1/''\<rparr>\<rparr>) (js ''completion'')
     = assembleUrl example_api (js ''completion'')"
    by (simp add: p)
  from t h2 have 2: "assembleUrl example_api (js ''/completion'') = assembleUrl example_api (js ''completion'')"
    by (simp add: p)
  from t h3 have 3: "spec_one_slash_url example_api (js ''completion'') = assembleUrl example_api (js ''completion'')"
    by simp
  from 1 2 3 e show ?thesis by simp
qed

text \<open>
  With the proviso on the base path alone the last part fails: the base path \<open>/v1\<close> does
  not end in two slashes, and the path \<open>//x\<close> gives a URL with two slashes at the join.
\<close>

theorem assembleUrl_one_slash_counterexample:
  "\<not> endsWith (path (baseUrl example_api)) (js ''//'') \<and>
   assembleUrl example_api (js ''//x'') = js ''http://127.0.0.1:8080/v1//x'' \<and>
   spec_one_slash_url example_api (js ''//x'') = js ''http://127.0.0.1:8080/v1/x'' \<and>
   assembleUrl example_api (js ''//x'') \<noteq> spec_one_slash_url example_api (js ''//x'')"
  by (simp add: assembleUrl_def spec_one_slash_url_def example_api_def endsWith_def
      startsWith_def js_def strip_trailing_slashes_def strip_leading_slashes_def)

section \<open>Properties of withSettings\<close>

text \<open>
  Claim C10. For a model whose settings object and a partial settings object are in the store,
  \<open>withSettings\<close> returns a new model whose settings object is a new object: it has the
  value of the partial settings for every key that these have, and the value of the model's
  settings for every other key. Every object that was in the store before, the settings of the
  model and the partial settings among them, is unchanged.
\<close>

theorem withSettings_frame:
  assumes "settings this < length h" and "s < length h"
    and "withSettings h this s = (h', m')"
  shows "settings m' = length h \<and> settings m' \<noteq> settings this \<and> settings m' \<noteq> s \<and>
         length h' = Suc (length h) \<and>
         h' ! settings m' = (h ! settings this) ++ (h ! s) \<and>
         (\<forall>k. (h' ! settings m') k =
                (case (h ! s) k of Some v \<Rightarrow> Some v | None \<Rightarrow> (h ! settings this) k)) \<and>
         (\<forall>r < length h. h' ! r = h ! r) \<and>
         h' ! settings this = h ! settings this \<and>
         tokenizer_api m' = (h' ! settings m') ''api''"
proof -
  let ?n = "length h"
  have h': "h' = h @ [(h ! settings this) ++ (h ! s)]" and m': "settings m' = ?n"
    and tk: "tokenizer_api m' = (h' ! settings m') ''api''"
    using assms
    by (auto simp: withSettings_def new_object_def LlamaCppCompletionModel_new_def Let_def
        nth_append list_update_append)
  show ?thesis
    using assms(1,2) by (simp add: h' m' tk nth_append map_add_def)
qed

theorem withSettings_frame_witness:
  "settings \<lparr>settings = 0, tokenizer_api = None\<rparr> < length example_store \<and>
   1 < length example_store \<and>
   (\<exists>h' m'. withSettings example_store \<lparr>settings = 0, tokenizer_api = None\<rparr> 1 = (h', m') \<and>
      settings m' = 2 \<and>
      (h' ! 2) ''temperature'' = Some 8 \<and> (h' ! 2) ''topK'' = Some 10 \<and>
      (h' ! 2) ''seed'' = Some 7 \<and> (h' ! 2) ''grammar'' = None \<and>
      (h' ! 0) ''topK'' = Some 40)"
proof -
  let ?m = "\<lparr>settings = 0, tokenizer_api = None :: int option\<rparr>"
  obtain h' m' where w: "withSettings example_store ?m 1 = (h', m')"
    by (cases "withSettings example_store ?m 1") auto
  have a: "settings ?m < length example_store" "1 < length example_store"
    by (simp_all add: example_store_def)
  note t = withSettings_frame[OF a w]
  from t have n0: "settings m' = length example_store" by blast
  from t have new0: "h' ! settings m' = (example_store ! settings ?m) ++ (example_store ! 1)"
    by blast
  from t have old0: "h' ! settings ?m = example_store ! settings ?m" by blast
  have n: "settings m' = 2" using n0 by (simp add: example_store_def)
  have new: "h' ! 2 = [''temperature'' \<mapsto> 8, ''topK'' \<mapsto> 40] ++ [''topK'' \<mapsto> 10, ''seed'' \<mapsto> 7]"
    using new0 unfolding n by (simp add: example_store_def)
  have old: "h' ! 0 = [''temperature'' \<mapsto> 8, ''topK'' \<mapsto> 40]"
    using old0 by (simp add: example_store_def)
  have "settings m' = 2 \<and>
      (h' ! 2) ''temperature'' = Some 8 \<and> (h' ! 2) ''topK'' = Some 10 \<and>
      (h' ! 2) ''seed'' = Some 7 \<and> (h' ! 2) ''grammar'' = None \<and>
      (h' ! 0) ''topK'' = Some 40"
    unfolding new old by (simp add: n map_add_def)
  with a w show ?thesis by simp
qed

section \<open>Properties of generate and safeGenerate\<close>

lemma safeGenerate_prompt_rejected:
  "arg_prompt arg (arg_input arg) = Inl e \<Longrightarrow> safeGenerate env arg context = ([], Inl e)"
  by (simp add: safeGenerate_def Let_def)

lemma safeGenerate_abort:
  assumes "arg_prompt arg (arg_input arg) = Inr p"
    and "retry_outcome env arg context p = Outcome_abort"
  shows "safeGenerate env arg context =
           (trace_start env arg context p @
              notify_end arg context
                (GenerateCallEndEvent Status_abort (call_end_metadata env arg context None)
                   p None None None None),
            Inr (Result_not_ok True None))"
  using assms
  by (simp add: safeGenerate_def retry_outcome_def trace_start_def notify_end_def
      call_start_metadata_def call_end_metadata_def Let_def)

lemma safeGenerate_failure:
  assumes "arg_prompt arg (arg_input arg) = Inr p"
    and "retry_outcome env arg context p = Outcome_failure err"
  shows "safeGenerate env arg context =
           (trace_start env arg context p @
              notify_end arg context
                (GenerateCallEndEvent Status_failure (call_end_metadata env arg context None)
                   p (Some err) None None None),
            Inr (Result_not_ok False (Some err)))"
  using assms
  by (simp add: safeGenerate_def retry_outcome_def trace_start_def notify_end_def
      call_start_metadata_def call_end_metadata_def Let_def)

lemma safeGenerate_success:
  assumes "arg_prompt arg (arg_input arg) = Inr p"
    and "retry_outcome env arg context p = Outcome_success raw n"
  shows "safeGenerate env arg context =
           (case (case arg_extractOutput arg of
                    None \<Rightarrow> model_extractOutput (arg_model arg) | Some f \<Rightarrow> f) raw of
              Inl e \<Rightarrow> (trace_start env arg context p, Inl e)
            | Inr extracted \<Rightarrow>
                (case arg_processOutput arg extracted of
                   Inl e \<Rightarrow> (trace_start env arg context p, Inl e)
                 | Inr processed \<Rightarrow>
                     (trace_start env arg context p @
                        notify_end arg context
                          (GenerateCallEndEvent Status_success
                             (call_end_metadata env arg context (Some n)) p None (Some raw)
                             (Some extracted) (Some processed)),
                      Inr (Result_ok processed))))"
  using assms
  by (simp add: safeGenerate_def retry_outcome_def trace_start_def notify_end_def
      call_start_metadata_def call_end_metadata_def Let_def split: sum.splits)

lemma end_events_trace_start: "end_events (trace_start env arg context p @ items) = end_events items"
  by (simp add: end_events_def trace_start_def notify_def is_start_event_def)

lemma end_events_notify:
  "\<not> is_start_event ev \<Longrightarrow>
   end_events (notify a c ev) =
     (if a then [(Argument_observer, ev)] else []) @ (if c then [(Context_observer, ev)] else [])"
  by (simp add: end_events_def notify_def)

text \<open>
  Claim C4. For a call whose prompt has been expanded, the outcome of the retry function
  decides the result. An abort outcome gives the result that is not ok, is aborted and has no
  error, \<open>generate\<close> throws the abort error, and every end event has the status abort. A
  failure outcome gives the result that is not ok, is not aborted and carries the error of the
  outcome, which \<open>generate\<close> throws. A result that is ok comes from a success outcome only,
  and a success outcome gives no result that is not ok. The three results differ.
\<close>

theorem generate_terminal_states:
  assumes "arg_prompt arg (arg_input arg) = Inr p"
  shows
    "(retry_outcome env arg context p = Outcome_abort \<longrightarrow>
        snd (safeGenerate env arg context) = Inr (Result_not_ok True None) \<and>
        generate env arg context = Inl (AbortError ''The generation was aborted.'') \<and>
        list_all (\<lambda>(ob, ev). status ev = Status_abort)
          (end_events (fst (safeGenerate env arg context)))) \<and>
     (\<forall>err. retry_outcome env arg context p = Outcome_failure err \<longrightarrow>
        snd (safeGenerate env arg context) = Inr (Result_not_ok False (Some err)) \<and>
        generate env arg context = Inl err) \<and>
     (\<forall>out. snd (safeGenerate env arg context) = Inr (Result_ok out) \<longrightarrow>
        (\<exists>raw n. retry_outcome env arg context p = Outcome_success raw n) \<and>
        generate env arg context = Inr out) \<and>
     (\<forall>raw n r. retry_outcome env arg context p = Outcome_success raw n \<and>
        snd (safeGenerate env arg context) = Inr r \<longrightarrow> is_ok r) \<and>
     (\<forall>err out aborted e. Result_not_ok True None \<noteq> Result_not_ok False (Some err) \<and>
        Result_ok out \<noteq> Result_not_ok aborted e)"
proof (intro conjI allI impI)
  assume a: "retry_outcome env arg context p = Outcome_abort"
  note r = safeGenerate_abort[OF assms a]
  show "snd (safeGenerate env arg context) = Inr (Result_not_ok True None)"
    by (simp add: r)
  show "generate env arg context = Inl (AbortError ''The generation was aborted.'')"
    by (simp add: generate_def r)
  show "list_all (\<lambda>(ob, ev). status ev = Status_abort)
          (end_events (fst (safeGenerate env arg context)))"
    by (simp add: r notify_end_def end_events_trace_start end_events_notify is_start_event_def)
next
  fix err
  assume a: "retry_outcome env arg context p = Outcome_failure err"
  note r = safeGenerate_failure[OF assms a]
  show "snd (safeGenerate env arg context) = Inr (Result_not_ok False (Some err))"
    by (simp add: r)
  show "generate env arg context = Inl err"
    by (simp add: generate_def r)
next
  fix out
  assume a: "snd (safeGenerate env arg context) = Inr (Result_ok out)"
  show "\<exists>raw n. retry_outcome env arg context p = Outcome_success raw n"
  proof (cases "retry_outcome env arg context p")
    case (Outcome_success raw n)
    then show ?thesis by blast
  next
    case (Outcome_failure err)
    from safeGenerate_failure[OF assms this] a show ?thesis by simp
  next
    case Outcome_abort
    from safeGenerate_abort[OF assms this] a show ?thesis by simp
  qed
  show "generate env arg context = Inr out"
    using a by (simp add: generate_def)
next
  fix raw n r
  assume a: "retry_outcome env arg context p = Outcome_success raw n \<and>
        snd (safeGenerate env arg context) = Inr r"
  from safeGenerate_success[OF assms a[THEN conjunct1]] a[THEN conjunct2]
  show "is_ok r"
    by (auto simp: is_ok_def split: sum.splits)
qed simp_all

theorem generate_terminal_states_witness:
  "arg_prompt example_aborting_input (arg_input example_aborting_input) = Inr ''hi'' \<and>
   retry_outcome example_env example_aborting_input None ''hi'' = Outcome_abort \<and>
   snd (safeGenerate example_env example_aborting_input None) = Inr (Result_not_ok True None) \<and>
   generate example_env example_aborting_input None
     = Inl (AbortError ''The generation was aborted.'') \<and>
   retry_outcome example_env example_failing_input None ''hi'' = Outcome_failure (Error ''503'') \<and>
   snd (safeGenerate example_env example_failing_input None)
     = Inr (Result_not_ok False (Some (Error ''503''))) \<and>
   generate example_env example_failing_input None = Inl (Error ''503'') \<and>
   retry_outcome example_env example_generate_input None ''hi'' = Outcome_success 2 1 \<and>
   snd (safeGenerate example_env example_generate_input None) = Inr (Result_ok 2) \<and>
   generate example_env example_generate_input None = Inr 2"
proof -
  have p: "arg_prompt example_aborting_input (arg_input example_aborting_input) = Inr ''hi''"
    "arg_prompt example_failing_input (arg_input example_failing_input) = Inr ''hi''"
    "arg_prompt example_generate_input (arg_input example_generate_input) = Inr ''hi''"
    by (simp_all add: example_aborting_input_def example_failing_input_def
        example_generate_input_def)
  have o: "retry_outcome example_env example_aborting_input None ''hi'' = Outcome_abort"
    "retry_outcome example_env example_failing_input None ''hi'' = Outcome_failure (Error ''503'')"
    "retry_outcome example_env example_generate_input None ''hi'' = Outcome_success 2 1"
    by (simp_all add: retry_outcome_def example_aborting_input_def example_failing_input_def
        example_generate_input_def example_env_def example_generate_model_def)
  have s: "snd (safeGenerate example_env example_generate_input None) = Inr (Result_ok 2)"
    by (simp add: safeGenerate_def example_env_def example_generate_input_def
        example_generate_model_def Let_def)
  from generate_terminal_states[OF p(1), of example_env None, THEN conjunct1, rule_format, OF o(1)]
  have a: "snd (safeGenerate example_env example_aborting_input None) = Inr (Result_not_ok True None) \<and>
   generate example_env example_aborting_input None
     = Inl (AbortError ''The generation was aborted.'')"
    by simp
  from generate_terminal_states[OF p(2), of example_env None, THEN conjunct2, THEN conjunct1,
      rule_format, OF o(2)]
  have b: "snd (safeGenerate example_env example_failing_input None)
     = Inr (Result_not_ok False (Some (Error ''503''))) \<and>
   generate example_env example_failing_input None = Inl (Error ''503'')"
    by simp
  from generate_terminal_states[OF p(3), of example_env None, THEN conjunct2, THEN conjunct2,
      THEN conjunct1, rule_format, OF s]
  have c: "generate example_env example_generate_input None = Inr 2"
    by simp
  from p o s a b c show ?thesis by simp
qed

text \<open>
  Claim C6, amended. Every call of \<open>safeGenerate\<close> that returns a result to its caller has
  made, in this order: the calls of the registered start observers with the one call-start
  event, the call of the retry function (which invokes the model), and the calls of the
  registered end observers with the one call-end event. The status of the end event agrees
  with the result that is returned and with the outcome of the retry function.
\<close>

theorem safeGenerate_events:
  assumes "safeGenerate env arg context = (trace, Inr r)"
  shows "\<exists>p endEvent.
           arg_prompt arg (arg_input arg) = Inr p \<and>
           trace =
             notify (arg_onCallStart arg)
               (case context of None \<Rightarrow> False | Some c \<Rightarrow> context_onCallStart c)
               (GenerateCallStartEvent (call_start_metadata env arg context) p)
             @ [Retry_called]
             @ notify (arg_onCallEnd arg)
                 (case context of None \<Rightarrow> False | Some c \<Rightarrow> context_onCallEnd c) endEvent \<and>
           \<not> is_start_event endEvent \<and>
           status endEvent = status_of_result r \<and>
           status endEvent =
             (case retry_outcome env arg context p of
                Outcome_success raw n \<Rightarrow> Status_success
              | Outcome_failure err \<Rightarrow> Status_failure
              | Outcome_abort \<Rightarrow> Status_abort)"
proof -
  obtain p where p: "arg_prompt arg (arg_input arg) = Inr p"
    using assms safeGenerate_prompt_rejected[of arg _ env "context"]
    by (cases "arg_prompt arg (arg_input arg)") auto
  show ?thesis
  proof (cases "retry_outcome env arg context p")
    case Outcome_abort
    from safeGenerate_abort[OF p this] assms p Outcome_abort show ?thesis
      by (auto simp: trace_start_def notify_end_def is_start_event_def status_of_result_def)
  next
    case (Outcome_failure err)
    from safeGenerate_failure[OF p this] assms p Outcome_failure show ?thesis
      by (auto simp: trace_start_def notify_end_def is_start_event_def status_of_result_def)
  next
    case (Outcome_success raw n)
    from safeGenerate_success[OF p this] assms
    obtain md extracted processed where
      "trace = trace_start env arg context p @
                 notify_end arg context
                   (GenerateCallEndEvent Status_success md p None (Some raw)
                      (Some extracted) (Some processed))"
      and "r = Result_ok processed"
      by (auto split: sum.splits)
    with p Outcome_success show ?thesis
      by (auto simp: trace_start_def notify_end_def is_start_event_def status_of_result_def)
  qed
qed

theorem safeGenerate_events_witness:
  "safeGenerate example_env example_aborting_input None =
     ([Observed Argument_observer (GenerateCallStartEvent example_start_metadata ''hi''),
       Retry_called,
       Observed Argument_observer
         (GenerateCallEndEvent Status_abort
            (start_metadata.extend example_start_metadata (end_metadata.fields 12 None))
            ''hi'' None None None None)],
      Inr (Result_not_ok True None)) \<and>
   (\<exists>endEvent.
      [Observed Argument_observer (GenerateCallStartEvent example_start_metadata ''hi''),
       Retry_called,
       Observed Argument_observer
         (GenerateCallEndEvent Status_abort
            (start_metadata.extend example_start_metadata (end_metadata.fields 12 None))
            ''hi'' None None None None)] =
      [Observed Argument_observer (GenerateCallStartEvent example_start_metadata ''hi''),
       Retry_called, Observed Argument_observer endEvent] \<and>
      status endEvent = Status_abort)"
proof -
  have run: "safeGenerate example_env example_aborting_input None =
     ([Observed Argument_observer (GenerateCallStartEvent example_start_metadata ''hi''),
       Retry_called,
       Observed Argument_observer
         (GenerateCallEndEvent Status_abort
            (start_metadata.extend example_start_metadata (end_metadata.fields 12 None))
            ''hi'' None None None None)],
      Inr (Result_not_ok True None))"
    by (simp add: safeGenerate_def example_env_def example_aborting_input_def
        example_generate_input_def example_generate_model_def example_start_metadata_def
        notify_def Let_def)
  have a: "arg_onCallStart example_aborting_input" "arg_onCallEnd example_aborting_input"
    "arg_prompt example_aborting_input (arg_input example_aborting_input) = Inr ''hi''"
    "call_start_metadata example_env example_aborting_input None = example_start_metadata"
    by (simp_all add: example_aborting_input_def example_generate_input_def
        call_start_metadata_def example_start_metadata_def example_env_def
        example_generate_model_def)
  have s: "status_of_result (Result_not_ok True None :: nat safe_result) = Status_abort"
    by (simp add: status_of_result_def)
  from safeGenerate_events[OF run] have
    "\<exists>endEvent.
      [Observed Argument_observer (GenerateCallStartEvent example_start_metadata ''hi''),
       Retry_called,
       Observed Argument_observer
         (GenerateCallEndEvent Status_abort
            (start_metadata.extend example_start_metadata (end_metadata.fields 12 None))
            ''hi'' None None None None)] =
      [Observed Argument_observer (GenerateCallStartEvent example_start_metadata ''hi''),
       Retry_called, Observed Argument_observer endEvent] \<and>
      status endEvent = Status_abort"
    unfolding a s notify_def by auto
  with run show ?thesis by blast
qed

text \<open>
  Without the restriction to calls that return a result the statement fails: when
  \<open>processOutput\<close> rejects after a success outcome, the start event has been observed, the
  retry function has been called, and no end event is ever observed, although an end observer
  is registered; the call is rejected with the error of \<open>processOutput\<close>.
\<close>

theorem safeGenerate_no_end_event_counterexample:
  "arg_onCallEnd example_rejecting_input \<and>
   safeGenerate example_env example_rejecting_input None =
     ([Observed Argument_observer (GenerateCallStartEvent example_start_metadata ''hi''),
       Retry_called],
      Inl (Error ''invalid output'')) \<and>
   end_events (fst (safeGenerate example_env example_rejecting_input None)) = []"
  by (simp add: safeGenerate_def example_env_def example_rejecting_input_def
      example_generate_input_def example_generate_model_def example_start_metadata_def
      notify_def Let_def end_events_def is_start_event_def)

section \<open>Properties of the streaming of LlamaCppCompletionModel\<close>

lemma process_events_before_stop:
  assumes "\<not> closed q"
    and "list_all (\<lambda>c. \<not> stop c) (parsed_prefix parse events)"
  shows "process_events policy parse q events =
           ((case first_error parse events of None \<Rightarrow> Loop_finished | Some e \<Rightarrow> Loop_threw e),
            q\<lparr>values := values q @ map Delta_delta (parsed_prefix parse events)\<rparr>)"
  using assms
proof (induction events arbitrary: q)
  case Nil
  then show ?case by simp
next
  case (Cons item events)
  show ?case
  proof (cases item)
    case (Stream_error e)
    then show ?thesis by simp
  next
    case (Event d)
    show ?thesis
    proof (cases "parse d")
      case (Inl e)
      with Event show ?thesis by simp
    next
      case (Inr chunk)
      let ?q1 = "q\<lparr>values := values q @ [Delta_delta chunk]\<rparr>"
      from Cons.prems Event Inr have ns: "\<not> stop chunk"
        and rest: "list_all (\<lambda>c. \<not> stop c) (parsed_prefix parse events)" by simp_all
      have "\<not> closed ?q1" using Cons.prems(1) by simp
      from Cons.IH[OF this rest] Cons.prems(1) Event Inr ns show ?thesis
        by (simp add: push_def)
    qed
  qed
qed

lemma createQueue_error_before_stop:
  assumes "first_error parse events = Some e"
    and "list_all (\<lambda>c. \<not> stop c) (parsed_prefix parse events)"
  shows "createLlamaCppFullDeltaIterableQueue policy parse (Inr events) =
           (\<lparr>values = map Delta_delta (parsed_prefix parse events) @ [Delta_error e],
              closed = True\<rparr>, None)"
proof -
  have "\<not> closed (AsyncQueue_new :: LlamaCppTextStreamChunk Delta AsyncQueue)"
    by (simp add: AsyncQueue_new_def)
  from process_events_before_stop[OF this assms(2), of policy] assms(1)
  show ?thesis
    by (simp add: createLlamaCppFullDeltaIterableQueue_def push_def close_def AsyncQueue_new_def)
qed

lemma createQueue_rejected:
  "createLlamaCppFullDeltaIterableQueue policy parse (Inl e) =
     (\<lparr>values = [Delta_error e], closed = True\<rparr>, None)"
  by (simp add: createLlamaCppFullDeltaIterableQueue_def on_rejected_def push_def close_def
      AsyncQueue_new_def)

lemma retry_loop_connects:
  assumes "\<forall>i<k. \<exists>msg. connection_error server (sent + i) = Some (Error msg) \<and> retryable (Error msg)"
    and "k < remaining"
    and "server (sent + k) = Inr (Response_ok body)"
    and "handler body = Inr r"
  shows "retry_loop remaining tried retryable (\<lambda>sent. postJsonToApi server handler sent) sent =
           (Outcome_success r (Suc (tried + k)), Suc (sent + k))"
  using assms
proof (induction k arbitrary: remaining tried sent)
  case 0
  then obtain n where n: "remaining = Suc n" by (cases remaining) auto
  from 0 show ?case
    by (simp add: n postJsonToApi_def)
next
  case (Suc k)
  then obtain n where n: "remaining = Suc n" by (cases remaining) auto
  from Suc.prems(1) obtain msg where
    m: "connection_error server sent = Some (Error msg)" "retryable (Error msg)"
    by (metis add.right_neutral zero_less_Suc)
  have call: "postJsonToApi server handler sent = (Inl (Error msg), Suc sent)"
    using m(1)
    by (auto simp: postJsonToApi_def connection_error_def split: sum.splits http_response.splits)
  have 1: "\<forall>i<k. \<exists>msg. connection_error server (Suc sent + i) = Some (Error msg) \<and> retryable (Error msg)"
    using Suc.prems(1) by (metis Suc_less_eq add_Suc_shift)
  have 2: "k < n" using Suc.prems(2) n by simp
  have 3: "server (Suc sent + k) = Inr (Response_ok body)" using Suc.prems(3) by simp
  from Suc.IH[OF 1 2 3 Suc.prems(4), of "Suc tried"] show ?case
    using m(2) 2 by (simp add: n call)
qed

lemma doStreamText_connects:
  assumes "retry api = retryWithExponentialBackoff maxTries retryable"
    and "throttle api = throttleOff"
    and "\<forall>i<k. \<exists>msg. connection_error server (sent + i) = Some (Error msg) \<and> retryable (Error msg)"
    and "k < maxTries"
    and "server (sent + k) = Inr (Response_ok body)"
  shows "llamacpp_doStreamText api policy parse server sent =
           (Inr (createLlamaCppFullDeltaIterableQueue policy parse body), Suc (sent + k))"
proof -
  have "deltaIterable_handler policy parse body =
          Inr (createLlamaCppFullDeltaIterableQueue policy parse body)"
    by (simp add: deltaIterable_handler_def)
  from retry_loop_connects[where handler = "deltaIterable_handler policy parse" and tried = 0
      and retryable = retryable, OF assms(3,4,5) this]
  show ?thesis
    by (simp add: llamacpp_doStreamText_def callAPI_def callWithRetryAndThrottle_def assms(1,2)
        retryWithExponentialBackoff_def throttleOff_def)
qed


lemma deltaIterable_call:
  "postJsonToApi server (deltaIterable_handler policy parse) n =
     ((case server n of
         Inl e \<Rightarrow> Inl e
       | Inr (Response_failed code) \<Rightarrow> Inl (Error ''ApiCallError'')
       | Inr (Response_ok body) \<Rightarrow> Inr (createLlamaCppFullDeltaIterableQueue policy parse body)),
      Suc n)"
  by (simp add: postJsonToApi_def deltaIterable_handler_def split: sum.splits http_response.splits)

lemma retry_loop_bodies_irrelevant:
  assumes "\<forall>n. connection_error server n = connection_error server' n"
  shows "snd (retry_loop remaining tried retryable
                (\<lambda>sent. postJsonToApi server (deltaIterable_handler policy parse) sent) sent) =
         snd (retry_loop remaining tried retryable
                (\<lambda>sent. postJsonToApi server' (deltaIterable_handler policy parse) sent) sent)"
proof (induction remaining arbitrary: tried sent)
  case 0
  show ?case by simp
next
  case (Suc remaining)
  from assms have c: "connection_error server sent = connection_error server' sent" by simp
  show ?case
  proof (cases "connection_error server sent")
    case None
    with c have "connection_error server' sent = None" by simp
    with None obtain b b' where "server sent = Inr (Response_ok b)" "server' sent = Inr (Response_ok b')"
      by (auto simp: connection_error_def split: sum.splits http_response.splits)
    then show ?thesis by (simp add: deltaIterable_call)
  next
    case (Some e)
    with c have c': "connection_error server' sent = Some e" by simp
    have 1: "postJsonToApi server (deltaIterable_handler policy parse) sent = (Inl e, Suc sent)"
      using Some
      by (auto simp: deltaIterable_call connection_error_def split: sum.splits http_response.splits)
    have 2: "postJsonToApi server' (deltaIterable_handler policy parse) sent = (Inl e, Suc sent)"
      using c'
      by (auto simp: deltaIterable_call connection_error_def split: sum.splits http_response.splits)
    show ?thesis
      using Suc.IH[of "Suc tried" "Suc sent"] by (simp add: 1 2 split: js_error.splits)
  qed
qed

lemma snd_doStreamText:
  assumes "retry api = retryWithExponentialBackoff maxTries retryable"
    and "throttle api = throttleOff"
  shows "snd (llamacpp_doStreamText api policy parse server sent) =
         snd (retry_loop maxTries 0 retryable
                (\<lambda>sent. postJsonToApi server (deltaIterable_handler policy parse) sent) sent)"
proof -
  obtain out n where r: "retry_loop maxTries 0 retryable
      (\<lambda>sent. postJsonToApi server (deltaIterable_handler policy parse) sent) sent = (out, n)"
    by (cases "retry_loop maxTries 0 retryable
      (\<lambda>sent. postJsonToApi server (deltaIterable_handler policy parse) sent) sent") auto
  show ?thesis
    by (cases out)
       (simp_all add: llamacpp_doStreamText_def callAPI_def callWithRetryAndThrottle_def assms
          retryWithExponentialBackoff_def throttleOff_def r)
qed

text \<open>
  Claim C3, amended. With the retry function of the specification and no throttling: the
  call that \<open>doStreamText\<close> makes is retried as long as the request does not connect; the
  first response that connects ends the call with the queue of its body, whatever the body
  yields, and the number of requests sent does not depend on the bodies of the responses.
  An error in the body that comes before any chunk with \<open>stop: true\<close> is the last element
  of the queue, after the deltas of the chunks before it, it is the only error of the queue,
  and the queue is closed; so is the error of a body that cannot be read as an event stream.
\<close>

theorem llamacpp_stream_errors_not_retried:
  assumes "retry api = retryWithExponentialBackoff maxTries retryable"
    and "throttle api = throttleOff"
  shows
    "(\<forall>k body.
        (\<forall>i<k. \<exists>msg. connection_error server (sent + i) = Some (Error msg) \<and> retryable (Error msg)) \<and>
        k < maxTries \<and> server (sent + k) = Inr (Response_ok body) \<longrightarrow>
        llamacpp_doStreamText api policy parse server sent =
          (Inr (createLlamaCppFullDeltaIterableQueue policy parse body), Suc (sent + k))) \<and>
     (\<forall>server'. (\<forall>n. connection_error server n = connection_error server' n) \<longrightarrow>
        snd (llamacpp_doStreamText api policy parse server sent) =
        snd (llamacpp_doStreamText api policy parse server' sent)) \<and>
     (\<forall>events e.
        first_error parse events = Some e \<and>
        list_all (\<lambda>c. \<not> stop c) (parsed_prefix parse events) \<longrightarrow>
        createLlamaCppFullDeltaIterableQueue policy parse (Inr events) =
          (\<lparr>values = map Delta_delta (parsed_prefix parse events) @ [Delta_error e],
             closed = True\<rparr>, None)) \<and>
     (\<forall>e. createLlamaCppFullDeltaIterableQueue policy parse (Inl e) =
          (\<lparr>values = [Delta_error e], closed = True\<rparr>, None))"
proof (intro conjI allI impI)
  fix k body
  assume "(\<forall>i<k. \<exists>msg. connection_error server (sent + i) = Some (Error msg) \<and> retryable (Error msg)) \<and>
        k < maxTries \<and> server (sent + k) = Inr (Response_ok body)"
  then show "llamacpp_doStreamText api policy parse server sent =
          (Inr (createLlamaCppFullDeltaIterableQueue policy parse body), Suc (sent + k))"
    using doStreamText_connects[OF assms] by blast
next
  fix server' :: "'a server"
  assume "\<forall>n. connection_error server n = connection_error server' n"
  from retry_loop_bodies_irrelevant[OF this, of maxTries 0 retryable policy parse sent]
  show "snd (llamacpp_doStreamText api policy parse server sent) =
        snd (llamacpp_doStreamText api policy parse server' sent)"
    by (simp add: snd_doStreamText[OF assms])
next
  fix events e
  assume "first_error parse events = Some e \<and>
        list_all (\<lambda>c. \<not> stop c) (parsed_prefix parse events)"
  then show "createLlamaCppFullDeltaIterableQueue policy parse (Inr events) =
          (\<lparr>values = map Delta_delta (parsed_prefix parse events) @ [Delta_error e],
             closed = True\<rparr>, None)"
    using createQueue_error_before_stop by blast
next
  fix e
  show "createLlamaCppFullDeltaIterableQueue policy parse (Inl e) =
          (\<lparr>values = [Delta_error e], closed = True\<rparr>, None)"
    by (rule createQueue_rejected)
qed

theorem llamacpp_stream_errors_not_retried_witness:
  "retry example_api_configuration = retryWithExponentialBackoff 3 (\<lambda>e. True) \<and>
   throttle example_api_configuration = throttleOff \<and>
   llamacpp_doStreamText example_api_configuration Raises example_parse example_server 0 =
     (Inr (\<lparr>values = [Delta_delta \<lparr>content = js ''Hi'', stop = False\<rparr>,
                       Delta_error (Error ''JSONParseError'')],
            closed = True\<rparr>, None), 2) \<and>
   snd (llamacpp_doStreamText example_api_configuration Raises example_parse example_server_clean 0)
     = 2"
proof -
  have a: "retry example_api_configuration = retryWithExponentialBackoff 3 (\<lambda>e. True)"
    "throttle example_api_configuration = throttleOff"
    by (simp_all add: example_api_configuration_def)
  note t = llamacpp_stream_errors_not_retried[OF a, of example_server 0 Raises example_parse]
  let ?events = "[Event (Some (js ''Hi'', False)), Event None]"
  have c: "(\<forall>i<1. \<exists>msg. connection_error example_server (0 + i) = Some (Error msg) \<and> (\<lambda>e. True) (Error msg)) \<and>
        1 < (3::nat) \<and> example_server (0 + 1) = Inr (Response_ok (Inr ?events))"
    by (simp add: connection_error_def example_server_def)
  from t c have 1: "llamacpp_doStreamText example_api_configuration Raises example_parse example_server 0 =
          (Inr (createLlamaCppFullDeltaIterableQueue Raises example_parse (Inr ?events)), Suc (0 + 1))"
    by blast
  have e: "first_error example_parse ?events = Some (Error ''JSONParseError'') \<and>
        list_all (\<lambda>c. \<not> stop c) (parsed_prefix example_parse ?events)"
    by (simp add: example_parse_def)
  from t e have 2: "createLlamaCppFullDeltaIterableQueue Raises example_parse (Inr ?events) =
          (\<lparr>values = map Delta_delta (parsed_prefix example_parse ?events) @ [Delta_error (Error ''JSONParseError'')],
             closed = True\<rparr>, None)"
    by blast
  have 3: "parsed_prefix example_parse ?events = [\<lparr>content = js ''Hi'', stop = False\<rparr>]"
    by (simp add: example_parse_def)
  have same: "\<forall>n. connection_error example_server n = connection_error example_server_clean n"
    by (simp add: connection_error_def example_server_def example_server_clean_def)
  from t same have 4:
    "snd (llamacpp_doStreamText example_api_configuration Raises example_parse example_server 0) =
     snd (llamacpp_doStreamText example_api_configuration Raises example_parse example_server_clean 0)"
    by blast
  from a 1 2 3 4 show ?thesis by (simp add: numeral_2_eq_2)
qed

text \<open>
  Without the restriction to errors before a chunk with \<open>stop: true\<close> the statement fails:
  such a chunk closes the queue and the loop goes on, so the error of a malformed event after
  it is pushed to a closed queue and is no element of the queue in the end, whether a push
  after close raises or is ignored.
\<close>

theorem llamacpp_error_after_stop_counterexample:
  "first_error example_parse [Event (Some (js ''Hi'', True)), Event None] =
     Some (Error ''JSONParseError'') \<and>
   createLlamaCppFullDeltaIterableQueue Raises example_parse
       (Inr [Event (Some (js ''Hi'', True)), Event None]) =
     (\<lparr>values = [Delta_delta \<lparr>content = js ''Hi'', stop = True\<rparr>], closed = True\<rparr>,
      Some (Error ''Cannot push value to closed queue.'')) \<and>
   createLlamaCppFullDeltaIterableQueue Ignores example_parse
       (Inr [Event (Some (js ''Hi'', True)), Event None]) =
     (\<lparr>values = [Delta_delta \<lparr>content = js ''Hi'', stop = True\<rparr>], closed = True\<rparr>, None)"
  by (simp add: createLlamaCppFullDeltaIterableQueue_def on_rejected_def push_def close_def
      AsyncQueue_new_def example_parse_def)

end
